theory Spec2Isabelle
  imports Main "HOL-Library.AList" "HOL-Library.Sublist"
begin

section \<open>Google Calendar events provider (inbox/events/google.py)\<close>

text \<open>
  A shallow embedding of \<^verbatim>\<open>src/inbox/events/google.py\<close>. Python values that come out of
  \<^verbatim>\<open>r.json()\<close> are values of the datatype \<open>json\<close>; a Python dict is an association list
  whose first binding of a key is the dict's entry, \<^verbatim>\<open>None\<close> is \<open>JNull\<close>. Every exception
  the code can raise is a value of \<open>exn\<close>, and a function that can raise returns
  \<open>exn + 'a\<close> with \<open>Inl\<close> the exception. A leading underscore of a Python name is dropped
  (\<^verbatim>\<open>_get_resource_list\<close> is \<open>get_resource_list\<close>).
\<close>

subsection \<open>Python values and the operations the code applies to them\<close>

datatype json =
    JNull
  | JBool bool
  | JNum int
  | JStr string
  | JArr "json list"
  | JObj "(string \<times> json) list"

record response =
  status_code :: int
  json_body :: "json option"

datatype exn =
    HTTPError response
  | KeyError json
  | TypeError
  | AttributeError
  | ValueError
  | OverflowError

text \<open>Truth value of a Python object, as \<^verbatim>\<open>if x:\<close> and \<^verbatim>\<open>bool(x)\<close> take it.\<close>

fun truthy :: "json \<Rightarrow> bool" where
  "truthy JNull = False"
| "truthy (JBool b) = b"
| "truthy (JNum n) = (n \<noteq> 0)"
| "truthy (JStr s) = (s \<noteq> [])"
| "truthy (JArr xs) = (xs \<noteq> [])"
| "truthy (JObj kvs) = (kvs \<noteq> [])"

text \<open>\<^verbatim>\<open>x[k]\<close> with a string key: only a dict accepts it.\<close>

fun getitem :: "json \<Rightarrow> string \<Rightarrow> exn + json" where
  "getitem (JObj kvs) k = (case map_of kvs k of None \<Rightarrow> Inl (KeyError (JStr k)) | Some v \<Rightarrow> Inr v)"
| "getitem _ k = Inl TypeError"

text \<open>\<^verbatim>\<open>d.get(k, default)\<close> on the entries of a dict, and \<^verbatim>\<open>x.get(k, default)\<close> on
  any value: a method of dicts only.\<close>

definition dget :: "(string \<times> json) list \<Rightarrow> string \<Rightarrow> json \<Rightarrow> json" where
  "dget kvs k d = (case map_of kvs k of None \<Rightarrow> d | Some v \<Rightarrow> v)"

fun dict_get :: "json \<Rightarrow> string \<Rightarrow> json \<Rightarrow> exn + json" where
  "dict_get (JObj kvs) k d = Inr (dget kvs k d)"
| "dict_get _ k d = Inl AttributeError"

text \<open>\<^verbatim>\<open>k in x\<close>: key of a dict, element of a list, substring of a string.\<close>

fun contains :: "string \<Rightarrow> json \<Rightarrow> exn + bool" where
  "contains k (JObj kvs) = Inr (map_of kvs k \<noteq> None)"
| "contains k (JArr xs) = Inr (JStr k \<in> set xs)"
| "contains k (JStr s) = Inr (sublist k s)"
| "contains k _ = Inl TypeError"

text \<open>The elements a \<^verbatim>\<open>for\<close> loop or \<^verbatim>\<open>list +=\<close> draws from a value.\<close>

fun iterate :: "json \<Rightarrow> exn + json list" where
  "iterate (JArr xs) = Inr xs"
| "iterate (JObj kvs) = Inr (map (\<lambda>k. JStr k) (remdups (map fst kvs)))"
| "iterate (JStr s) = Inr (map (\<lambda>c. JStr [c]) s)"
| "iterate _ = Inl TypeError"

subsection \<open>The world outside: token manager, HTTP transport, library functions\<close>

text \<open>
  The functions the module imports and does not define are parameters of the model:
  the token manager (the token its \<open>k\<close>-th call returns for an account),
  \<^verbatim>\<open>inbox.events.util.parse_datetime\<close>, Python's \<^verbatim>\<open>str\<close> and \<^verbatim>\<open>unicode\<close> renderings,
  \<^verbatim>\<open>urllib.quote\<close>, \<^verbatim>\<open>datetime.isoformat\<close> and \<^verbatim>\<open>strftime('%Y-%m-%d')\<close>.
  A datetime is the number of microseconds since \<^verbatim>\<open>datetime.min\<close>.
\<close>

type_synonym datetime = int

record externals =
  get_token :: "nat \<Rightarrow> nat \<Rightarrow> string"
  parse_datetime :: "json \<Rightarrow> exn + datetime"
  py_str :: "json \<Rightarrow> exn + string"
  py_unicode :: "json \<Rightarrow> string"
  urllib_quote :: "string \<Rightarrow> string"
  isoformat :: "datetime \<Rightarrow> string"
  strftime_ymd :: "datetime \<Rightarrow> exn + string"

type_synonym params = "(string \<times> json) list"

record request =
  http_method :: string
  url :: string
  params :: params
  bearer :: string
  json_payload :: "json option"

text \<open>
  The remote is a script: the responses it will give, in order. Each HTTP call takes the
  next one and is logged with the request as the code built it. The code sees the remote
  through its responses only, so every run against any remote is the run on the script of
  that remote's answers. A call on an exhausted script does not return (\<open>None\<close>), so a
  function that keeps asking never returns. The token manager is counted: the world holds
  the number of tokens acquired so far.
\<close>

record world =
  pending :: "response list"
  sent :: "request list"
  tokens_acquired :: nat

record provider =
  account_id :: nat
  namespace_id :: nat

definition http_request :: "request \<Rightarrow> world \<Rightarrow> (response \<times> world) option" where
  "http_request q w =
     (case pending w of
        [] \<Rightarrow> None
      | r # rs \<Rightarrow> Some (r, w\<lparr>pending := rs, sent := sent w @ [q]\<rparr>))"

text \<open>\<^verbatim>\<open>requests.get(url, params=params, auth=OAuth(token))\<close>.\<close>

definition get_request :: "string \<Rightarrow> params \<Rightarrow> string \<Rightarrow> request" where
  "get_request u ps token =
     \<lparr>http_method = ''get'', url = u, params = ps, bearer = token, json_payload = None\<rparr>"

text \<open>
  \<^verbatim>\<open>Response.raise_for_status()\<close> of the requests library raises \<^verbatim>\<open>HTTPError\<close> exactly
  for the client and server error statuses, 400 to 599.
\<close>

definition raises_for_status :: "response \<Rightarrow> bool" where
  "raises_for_status r = (400 \<le> status_code r \<and> status_code r < 600)"

subsection \<open>Fetching\<close>

text \<open>
  \<^verbatim>\<open>_get_access_token\<close>: one call of the token manager for the provider's account.
\<close>

definition get_access_token :: "externals \<Rightarrow> provider \<Rightarrow> world \<Rightarrow> string \<times> world" where
  "get_access_token L self w =
     (get_token L (account_id self) (tokens_acquired w),
      w\<lparr>tokens_acquired := Suc (tokens_acquired w)\<rparr>)"

text \<open>Lines 96-97: \<^verbatim>\<open>if next_page_token is not None: params['pageToken'] = next_page_token\<close>.\<close>

definition cursor_params :: "json \<Rightarrow> params \<Rightarrow> params" where
  "cursor_params next_page_token ps =
     (if next_page_token \<noteq> JNull then AList.update ''pageToken'' next_page_token ps else ps)"

text \<open>
  The \<^verbatim>\<open>while True\<close> loop of \<^verbatim>\<open>_get_resource_list\<close>, on its local variables
  \<^verbatim>\<open>params\<close>, \<^verbatim>\<open>token\<close>, \<^verbatim>\<open>items\<close> and \<^verbatim>\<open>next_page_token\<close>. \<^verbatim>\<open>r.json()\<close> raises
  \<^verbatim>\<open>ValueError\<close> on a body that does not decode. In the last branch a status that
  \<^verbatim>\<open>raise_for_status\<close> lets pass sends the loop round again with nothing changed.
\<close>

function resource_loop ::
  "externals \<Rightarrow> provider \<Rightarrow> string \<Rightarrow> params \<Rightarrow> string \<Rightarrow> json list \<Rightarrow> json \<Rightarrow> world
     \<Rightarrow> ((exn + json list) \<times> world) option" where
  "resource_loop L self u ps token items next_page_token w =
     (case http_request (get_request u (cursor_params next_page_token ps) token) w of
        None \<Rightarrow> None
      | Some (r, w1) \<Rightarrow>
          if status_code r = 200 then
            (case json_body r of
               None \<Rightarrow> Some (Inl ValueError, w1)
             | Some data \<Rightarrow>
                 (case getitem data ''items'' of
                    Inl e \<Rightarrow> Some (Inl e, w1)
                  | Inr v \<Rightarrow>
                      (case iterate v of
                         Inl e \<Rightarrow> Some (Inl e, w1)
                       | Inr new \<Rightarrow>
                           (case dict_get data ''nextPageToken'' JNull of
                              Inl e \<Rightarrow> Some (Inl e, w1)
                            | Inr t \<Rightarrow>
                                if t = JNull then Some (Inr (items @ new), w1)
                                else resource_loop L self u (cursor_params next_page_token ps)
                                       token (items @ new) t w1))))
          else if status_code r = 401 then
            resource_loop L self u (cursor_params next_page_token ps)
              (fst (get_access_token L self w1)) items next_page_token
              (snd (get_access_token L self w1))
          else if raises_for_status r then Some (Inl (HTTPError r), w1)
          else resource_loop L self u (cursor_params next_page_token ps)
                 token items next_page_token w1)"
  by pat_completeness auto
termination
proof (relation "measure (\<lambda>(L, self, u, ps, token, items, t, w). length (pending w))")
qed (auto simp: http_request_def get_access_token_def split: list.splits)

declare resource_loop.simps [simp del]

definition get_resource_list ::
  "externals \<Rightarrow> provider \<Rightarrow> string \<Rightarrow> params \<Rightarrow> world \<Rightarrow> ((exn + json list) \<times> world) option" where
  "get_resource_list L self u ps w =
     (case get_access_token L self w of
        (token, w1) \<Rightarrow>
          resource_loop L self u (AList.update ''showDeleted'' (JBool True) ps) token [] JNull w1)"

text \<open>\<^verbatim>\<open>_get_raw_calendars\<close>.\<close>

definition CALENDARS_URL :: string where
  "CALENDARS_URL = ''https://www.googleapis.com/calendar/v3/users/me/calendarList''"

definition get_raw_calendars ::
  "externals \<Rightarrow> provider \<Rightarrow> world \<Rightarrow> ((exn + json list) \<times> world) option" where
  "get_raw_calendars L self w = get_resource_list L self CALENDARS_URL [] w"

text \<open>
  \<^verbatim>\<open>_get_raw_events\<close>. The keyword arguments of the first call are
  \<^verbatim>\<open>updatedMin=sync_from_time, singleEvents=True\<close>, with \<^verbatim>\<open>sync_from_time\<close> either
  \<^verbatim>\<open>None\<close> or the ISO string with \<^verbatim>\<open>'Z'\<close> appended. The \<^verbatim>\<open>except\<close> clause catches
  \<^verbatim>\<open>HTTPError\<close> only.
\<close>

definition events_url :: "externals \<Rightarrow> string \<Rightarrow> string" where
  "events_url L calendar_uid =
     ''https://www.googleapis.com/calendar/v3/calendars/'' @ urllib_quote L calendar_uid
       @ ''/events''"

definition updated_min :: "externals \<Rightarrow> datetime option \<Rightarrow> json" where
  "updated_min L sync_from_time =
     (case sync_from_time of None \<Rightarrow> JNull | Some t \<Rightarrow> JStr (isoformat L t @ ''Z''))"

definition get_raw_events ::
  "externals \<Rightarrow> provider \<Rightarrow> string \<Rightarrow> datetime option \<Rightarrow> world
     \<Rightarrow> ((exn + json list) \<times> world) option" where
  "get_raw_events L self calendar_uid sync_from_time w =
     (case get_resource_list L self (events_url L calendar_uid)
             [(''updatedMin'', updated_min L sync_from_time), (''singleEvents'', JBool True)] w of
        None \<Rightarrow> None
      | Some (Inr items, w1) \<Rightarrow> Some (Inr items, w1)
      | Some (Inl exc, w1) \<Rightarrow>
          (case exc of
             HTTPError r \<Rightarrow>
               if status_code r = 410
               then get_resource_list L self (events_url L calendar_uid)
                      [(''singleEvents'', JBool True)] w1
               else Some (Inl exc, w1)
           | _ \<Rightarrow> Some (Inl exc, w1)))"

text \<open>
  The requests library leaves a parameter whose value is \<^verbatim>\<open>None\<close> out of the query
  string: what goes over the wire for a \<^verbatim>\<open>params\<close> dict.
\<close>

definition query_params :: "params \<Rightarrow> params" where
  "query_params ps = filter (\<lambda>(k, v). v \<noteq> JNull) ps"

subsection \<open>Translating remote records\<close>

record calendar =
  uid :: json
  name :: json
  read_only :: bool
  description :: json

record event =
  uid :: "string option"
  raw_data :: string
  title :: json
  description :: json
  location :: json
  busy :: bool
  start :: datetime
  end_dt :: datetime
  all_day :: bool
  owner :: string
  read_only :: bool
  participants :: "json list"
  source :: string
  calendar :: "calendar option"

definition STATUS_MAP :: "(string \<times> string) list" where
  "STATUS_MAP = [(''accepted'', ''yes''), (''needsAction'', ''noreply''),
                 (''declined'', ''no''), (''tentative'', ''maybe'')]"

text \<open>
  \<^verbatim>\<open>d[k]\<close> for a dict \<open>d\<close> from strings to strings and any key \<open>k\<close>: a list or a dict
  is unhashable, any other key that is not in \<open>d\<close> is a \<^verbatim>\<open>KeyError\<close>.
\<close>

fun status_lookup :: "(string \<times> string) list \<Rightarrow> json \<Rightarrow> exn + string" where
  "status_lookup d (JStr s) = (case map_of d s of None \<Rightarrow> Inl (KeyError (JStr s)) | Some v \<Rightarrow> Inr v)"
| "status_lookup d (JArr xs) = Inl TypeError"
| "status_lookup d (JObj kvs) = Inl TypeError"
| "status_lookup d k = Inl (KeyError k)"

definition parse_calendar_response :: "json \<Rightarrow> exn + calendar" where
  "parse_calendar_response cal =
     (case getitem cal ''id'' of
        Inl e \<Rightarrow> Inl e
      | Inr i \<Rightarrow>
     (case getitem cal ''summary'' of
        Inl e \<Rightarrow> Inl e
      | Inr n \<Rightarrow>
     (case getitem cal ''accessRole'' of
        Inl e \<Rightarrow> Inl e
      | Inr role \<Rightarrow>
     (case dict_get cal ''description'' JNull of
        Inl e \<Rightarrow> Inl e
      | Inr d \<Rightarrow>
          Inr \<lparr>calendar.uid = i, name = n, calendar.read_only = (role = JStr ''reader''),
               calendar.description = d\<rparr>))))"

text \<open>\<^verbatim>\<open>datetime.timedelta(days=1)\<close>, and a datetime minus it: no datetime lies before
  \<^verbatim>\<open>datetime.min\<close>.\<close>

definition one_day :: int where
  "one_day = 86400000000"

definition minus_one_day :: "datetime \<Rightarrow> exn + datetime" where
  "minus_one_day t = (if t - one_day < 0 then Inl OverflowError else Inr (t - one_day))"

text \<open>Lines 183-189 of \<^verbatim>\<open>parse_event_response\<close>: \<^verbatim>\<open>all_day\<close>, \<^verbatim>\<open>start\<close> and \<^verbatim>\<open>end\<close>.\<close>

definition event_times :: "externals \<Rightarrow> json \<Rightarrow> json \<Rightarrow> exn + (bool \<times> datetime \<times> datetime)" where
  "event_times L start' end' =
     (case contains ''date'' start' of
        Inl e \<Rightarrow> Inl e
      | Inr in_start \<Rightarrow>
     (case (if in_start then contains ''date'' end' else Inr False) of
        Inl e \<Rightarrow> Inl e
      | Inr all_day' \<Rightarrow>
          if all_day' then
            (case getitem start' ''date'' of
               Inl e \<Rightarrow> Inl e
             | Inr sd \<Rightarrow>
            (case parse_datetime L sd of
               Inl e \<Rightarrow> Inl e
             | Inr s \<Rightarrow>
            (case getitem end' ''date'' of
               Inl e \<Rightarrow> Inl e
             | Inr ed \<Rightarrow>
            (case parse_datetime L ed of
               Inl e \<Rightarrow> Inl e
             | Inr t \<Rightarrow>
            (case minus_one_day t of
               Inl e \<Rightarrow> Inl e
             | Inr e' \<Rightarrow> Inr (True, s, e'))))))
          else
            (case getitem start' ''dateTime'' of
               Inl e \<Rightarrow> Inl e
             | Inr sd \<Rightarrow>
            (case parse_datetime L sd of
               Inl e \<Rightarrow> Inl e
             | Inr s \<Rightarrow>
            (case getitem end' ''dateTime'' of
               Inl e \<Rightarrow> Inl e
             | Inr ed \<Rightarrow>
            (case parse_datetime L ed of
               Inl e \<Rightarrow> Inl e
             | Inr e' \<Rightarrow> Inr (False, s, e')))))))"

text \<open>Lines 196-204: \<^verbatim>\<open>owner\<close> and \<^verbatim>\<open>is_owner\<close> from \<^verbatim>\<open>creator\<close>.\<close>

definition event_owner :: "externals \<Rightarrow> json \<Rightarrow> exn + (string \<times> bool)" where
  "event_owner L creator =
     (if truthy creator then
        (case dict_get creator ''displayName'' (JStr []) of
           Inl e \<Rightarrow> Inl e
         | Inr dn \<Rightarrow>
        (case dict_get creator ''email'' (JStr []) of
           Inl e \<Rightarrow> Inl e
         | Inr em \<Rightarrow>
        (case dict_get creator ''self'' JNull of
           Inl e \<Rightarrow> Inl e
         | Inr slf \<Rightarrow> Inr (py_unicode L dn @ '' <'' @ py_unicode L em @ ''>'', truthy slf))))
      else Inr ([], False))"

text \<open>Lines 207-216: the loop over \<^verbatim>\<open>attendees\<close>, appending to \<^verbatim>\<open>participants\<close>.\<close>

fun attendees_loop :: "json list \<Rightarrow> json list \<Rightarrow> exn + json list" where
  "attendees_loop [] ptcs = Inr ptcs"
| "attendees_loop (attendee # rest) ptcs =
     (case dict_get attendee ''responseStatus'' JNull of
        Inl e \<Rightarrow> Inl e
      | Inr rs \<Rightarrow>
     (case status_lookup STATUS_MAP rs of
        Inl e \<Rightarrow> Inl e
      | Inr status \<Rightarrow>
     (case dict_get attendee ''email'' JNull of
        Inl e \<Rightarrow> Inl e
      | Inr em \<Rightarrow>
     (case dict_get attendee ''displayName'' JNull of
        Inl e \<Rightarrow> Inl e
      | Inr dn \<Rightarrow>
     (case dict_get attendee ''comment'' JNull of
        Inl e \<Rightarrow> Inl e
      | Inr cm \<Rightarrow>
          attendees_loop rest
            (ptcs @ [JObj [(''email'', em), (''name'', dn), (''status'', JStr status),
                           (''notes'', cm)]]))))))"

fun parse_event_response :: "externals \<Rightarrow> json \<Rightarrow> exn + event" where
  "parse_event_response L (JObj ev) =
     (case getitem (JObj ev) ''id'' of
        Inl e \<Rightarrow> Inl e
      | Inr i \<Rightarrow>
     (case py_str L i of
        Inl e \<Rightarrow> Inl e
      | Inr uid' \<Rightarrow>
     (case py_str L (JObj ev) of
        Inl e \<Rightarrow> Inl e
      | Inr raw \<Rightarrow>
     (case getitem (JObj ev) ''start'' of
        Inl e \<Rightarrow> Inl e
      | Inr start' \<Rightarrow>
     (case getitem (JObj ev) ''end'' of
        Inl e \<Rightarrow> Inl e
      | Inr end' \<Rightarrow>
     (case event_times L start' end' of
        Inl e \<Rightarrow> Inl e
      | Inr (all_day', s, e') \<Rightarrow>
     (case event_owner L (dget ev ''creator'' JNull) of
        Inl e \<Rightarrow> Inl e
      | Inr (owner', is_owner) \<Rightarrow>
     (case iterate (dget ev ''attendees'' (JArr [])) of
        Inl e \<Rightarrow> Inl e
      | Inr attendees \<Rightarrow>
     (case attendees_loop attendees [] of
        Inl e \<Rightarrow> Inl e
      | Inr ptcs \<Rightarrow>
          Inr \<lparr>uid = Some uid', raw_data = raw, title = dget ev ''summary'' (JStr []),
               description = dget ev ''description'' JNull,
               location = dget ev ''location'' JNull,
               busy = (dget ev ''transparency'' JNull \<noteq> JStr ''transparent''),
               start = s, end_dt = e', all_day = all_day', owner = owner',
               read_only = (\<not> (is_owner \<or> truthy (dget ev ''guestsCanModify'' JNull))),
               participants = ptcs, source = ''local'', calendar = None\<rparr>)))))))))"
| "parse_event_response L other = Inl TypeError"

subsection \<open>Classifying fetched items\<close>

text \<open>The \<^verbatim>\<open>for item in items\<close> loop of \<^verbatim>\<open>get_calendars\<close>, on \<^verbatim>\<open>deletes\<close> and \<^verbatim>\<open>updates\<close>.\<close>

fun calendars_loop ::
  "json list \<Rightarrow> json list \<Rightarrow> calendar list \<Rightarrow> exn + (json list \<times> calendar list)" where
  "calendars_loop [] deletes updates = Inr (deletes, updates)"
| "calendars_loop (item # items) deletes updates =
     (case dict_get item ''deleted'' JNull of
        Inl e \<Rightarrow> Inl e
      | Inr d \<Rightarrow>
          if truthy d then
            (case getitem item ''id'' of
               Inl e \<Rightarrow> Inl e
             | Inr i \<Rightarrow> calendars_loop items (deletes @ [i]) updates)
          else
            (case parse_calendar_response item of
               Inl e \<Rightarrow> Inl e
             | Inr c \<Rightarrow> calendars_loop items deletes (updates @ [c])))"

definition get_calendars ::
  "externals \<Rightarrow> provider \<Rightarrow> world \<Rightarrow> ((exn + json list \<times> calendar list) \<times> world) option" where
  "get_calendars L self w =
     (case get_raw_calendars L self w of
        None \<Rightarrow> None
      | Some (Inl e, w1) \<Rightarrow> Some (Inl e, w1)
      | Some (Inr items, w1) \<Rightarrow> Some (calendars_loop items [] [], w1))"

text \<open>The same loop of \<^verbatim>\<open>get_events\<close>.\<close>

fun events_loop ::
  "externals \<Rightarrow> json list \<Rightarrow> json list \<Rightarrow> event list \<Rightarrow> exn + (json list \<times> event list)" where
  "events_loop L [] deletes updates = Inr (deletes, updates)"
| "events_loop L (item # items) deletes updates =
     (case dict_get item ''status'' JNull of
        Inl e \<Rightarrow> Inl e
      | Inr st \<Rightarrow>
          if st = JStr ''cancelled'' then
            (case getitem item ''id'' of
               Inl e \<Rightarrow> Inl e
             | Inr i \<Rightarrow> events_loop L items (deletes @ [i]) updates)
          else
            (case parse_event_response L item of
               Inl e \<Rightarrow> Inl e
             | Inr ev \<Rightarrow> events_loop L items deletes (updates @ [ev])))"

definition get_events ::
  "externals \<Rightarrow> provider \<Rightarrow> string \<Rightarrow> datetime option \<Rightarrow> world
     \<Rightarrow> ((exn + json list \<times> event list) \<times> world) option" where
  "get_events L self calendar_uid sync_from_time w =
     (case get_raw_events L self calendar_uid sync_from_time w of
        None \<Rightarrow> None
      | Some (Inl e, w1) \<Rightarrow> Some (Inl e, w1)
      | Some (Inr items, w1) \<Rightarrow> Some (events_loop L items [] [], w1))"

subsection \<open>Pushing local events\<close>

text \<open>
  \<^verbatim>\<open>inv_status_map\<close> of \<^verbatim>\<open>_create_attendee\<close>: the dict comprehension over
  \<^verbatim>\<open>STATUS_MAP.iteritems()\<close>, a later entry replacing an earlier one with the same key.
\<close>

definition inv_status_map :: "(string \<times> string) list" where
  "inv_status_map = rev (map (\<lambda>(key, value). (value, key)) STATUS_MAP)"

text \<open>
  One step of \<^verbatim>\<open>_create_attendee\<close>: \<^verbatim>\<open>if k in participant: att[k'] = f(participant[k])\<close>.
\<close>

definition copy_field ::
  "json \<Rightarrow> string \<Rightarrow> string \<Rightarrow> (json \<Rightarrow> exn + json) \<Rightarrow> (string \<times> json) list
     \<Rightarrow> exn + (string \<times> json) list" where
  "copy_field participant k k' f att =
     (case contains k participant of
        Inl e \<Rightarrow> Inl e
      | Inr present \<Rightarrow>
          if present then
            (case getitem participant k of
               Inl e \<Rightarrow> Inl e
             | Inr v \<Rightarrow>
            (case f v of
               Inl e \<Rightarrow> Inl e
             | Inr v' \<Rightarrow> Inr (AList.update k' v' att)))
          else Inr att)"

definition inv_status :: "json \<Rightarrow> exn + json" where
  "inv_status v = (case status_lookup inv_status_map v of Inl e \<Rightarrow> Inl e | Inr s \<Rightarrow> Inr (JStr s))"

definition create_attendee :: "json \<Rightarrow> exn + (string \<times> json) list" where
  "create_attendee participant =
     (case copy_field participant ''name'' ''displayName'' Inr [] of
        Inl e \<Rightarrow> Inl e
      | Inr att1 \<Rightarrow>
     (case copy_field participant ''status'' ''responseStatus'' inv_status att1 of
        Inl e \<Rightarrow> Inl e
      | Inr att2 \<Rightarrow>
     (case copy_field participant ''email'' ''email'' Inr att2 of
        Inl e \<Rightarrow> Inl e
      | Inr att3 \<Rightarrow> copy_field participant ''guests'' ''additionalGuests'' Inr att3)))"

text \<open>The list comprehension \<^verbatim>\<open>[_create_attendee(participant) for participant in ...]\<close>.\<close>

fun create_attendees :: "json list \<Rightarrow> exn + (string \<times> json) list list" where
  "create_attendees [] = Inr []"
| "create_attendees (p # ps) =
     (case create_attendee p of
        Inl e \<Rightarrow> Inl e
      | Inr a \<Rightarrow>
     (case create_attendees ps of
        Inl e \<Rightarrow> Inl e
      | Inr as \<Rightarrow> Inr (a # as)))"

definition dump_event :: "externals \<Rightarrow> event \<Rightarrow> exn + (string \<times> json) list" where
  "dump_event L ev =
     (let dump1 = AList.update ''summary'' (title ev) [];
          dump2 = AList.update ''description'' (description ev) dump1;
          dump3 = AList.update ''location'' (location ev) dump2;
          dump4 = AList.update ''transparency''
                    (JStr (if busy ev then ''opaque'' else ''transparent'')) dump3
      in
        case (if all_day ev then
                (case strftime_ymd L (start ev) of
                   Inl e \<Rightarrow> Inl e
                 | Inr d \<Rightarrow> Inr (AList.update ''start'' (JObj [(''date'', JStr d)]) dump4))
              else
                Inr (AList.update ''end''
                       (JObj [(''dateTime'', JStr (isoformat L (end_dt ev))),
                              (''timeZone'', JStr ''UTC'')])
                    (AList.update ''start''
                       (JObj [(''dateTime'', JStr (isoformat L (start ev))),
                              (''timeZone'', JStr ''UTC'')]) dump4))) of
          Inl e \<Rightarrow> Inl e
        | Inr dump5 \<Rightarrow>
            if participants ev \<noteq> [] then
              (case create_attendees (participants ev) of
                 Inl e \<Rightarrow> Inl e
               | Inr attendees \<Rightarrow>
                   Inr (AList.update ''attendees''
                          (JArr (map JObj (filter (\<lambda>attendee. attendee \<noteq> []) attendees))) dump5))
            else Inr dump5)"

text \<open>
  \<^verbatim>\<open>_make_event_request\<close>: \<^verbatim>\<open>event_uid or ''\<close>, the URL, one token, one request,
  \<^verbatim>\<open>raise_for_status\<close>.
\<close>

definition event_url :: "externals \<Rightarrow> string \<Rightarrow> string \<Rightarrow> string" where
  "event_url L calendar_uid event_uid =
     ''https://www.googleapis.com/calendar/v3/calendars/'' @ urllib_quote L calendar_uid
       @ ''/events/'' @ urllib_quote L event_uid"

definition make_event_request ::
  "externals \<Rightarrow> provider \<Rightarrow> string \<Rightarrow> string \<Rightarrow> string option \<Rightarrow> json option \<Rightarrow> world
     \<Rightarrow> ((exn + response) \<times> world) option" where
  "make_event_request L self method calendar_uid event_uid payload w =
     (let event_uid' = (case event_uid of None \<Rightarrow> [] | Some s \<Rightarrow> s) in
      case get_access_token L self w of
        (token, w1) \<Rightarrow>
          (case http_request
                  \<lparr>http_method = method, url = event_url L calendar_uid event_uid', params = [],
                   bearer = token, json_payload = payload\<rparr> w1 of
             None \<Rightarrow> None
           | Some (r, w2) \<Rightarrow>
               if raises_for_status r then Some (Inl (HTTPError r), w2) else Some (Inr r, w2)))"

text \<open>
  \<^verbatim>\<open>event.calendar.uid\<close>: an event without a calendar has no \<^verbatim>\<open>uid\<close> to read.
\<close>

definition calendar_uid_of :: "event \<Rightarrow> exn + string" where
  "calendar_uid_of ev =
     (case calendar ev of
        None \<Rightarrow> Inl AttributeError
      | Some c \<Rightarrow> (case calendar.uid c of JStr s \<Rightarrow> Inr s | _ \<Rightarrow> Inl TypeError))"

definition create_remote_event ::
  "externals \<Rightarrow> provider \<Rightarrow> event \<Rightarrow> world \<Rightarrow> ((exn + json) \<times> world) option" where
  "create_remote_event L self ev w =
     (case dump_event L ev of
        Inl e \<Rightarrow> Some (Inl e, w)
      | Inr data \<Rightarrow>
     (case calendar_uid_of ev of
        Inl e \<Rightarrow> Some (Inl e, w)
      | Inr cuid \<Rightarrow>
     (case make_event_request L self ''post'' cuid (uid ev) (Some (JObj data)) w of
        None \<Rightarrow> None
      | Some (Inl e, w1) \<Rightarrow> Some (Inl e, w1)
      | Some (Inr r, w1) \<Rightarrow>
          (case json_body r of
             None \<Rightarrow> Some (Inl ValueError, w1)
           | Some v \<Rightarrow> Some (Inr v, w1)))))"

definition update_remote_event ::
  "externals \<Rightarrow> provider \<Rightarrow> event \<Rightarrow> world \<Rightarrow> ((exn + unit) \<times> world) option" where
  "update_remote_event L self ev w =
     (case dump_event L ev of
        Inl e \<Rightarrow> Some (Inl e, w)
      | Inr data \<Rightarrow>
     (case calendar_uid_of ev of
        Inl e \<Rightarrow> Some (Inl e, w)
      | Inr cuid \<Rightarrow>
     (case make_event_request L self ''put'' cuid (uid ev) (Some (JObj data)) w of
        None \<Rightarrow> None
      | Some (Inl e, w1) \<Rightarrow> Some (Inl e, w1)
      | Some (Inr r, w1) \<Rightarrow> Some (Inr (), w1))))"

definition delete_remote_event ::
  "externals \<Rightarrow> provider \<Rightarrow> string \<Rightarrow> string option \<Rightarrow> world
     \<Rightarrow> ((exn + unit) \<times> world) option" where
  "delete_remote_event L self calendar_uid event_uid w =
     (case make_event_request L self ''delete'' calendar_uid event_uid None w of
        None \<Rightarrow> None
      | Some (Inl e, w1) \<Rightarrow> Some (Inl e, w1)
      | Some (Inr r, w1) \<Rightarrow> Some (Inr (), w1))"

section \<open>Vocabulary of the properties\<close>

text \<open>
  A page is a response with status 200 whose body is an object with an \<^verbatim>\<open>items\<close> array;
  \<open>page_next\<close> is what \<^verbatim>\<open>data.get('nextPageToken')\<close> reads from it (\<open>JNull\<close> when the
  body has none). Pages are linked when every page but the last carries a
  \<^verbatim>\<open>nextPageToken\<close> and the last carries none.
\<close>

definition is_page :: "response \<Rightarrow> bool" where
  "is_page r =
     (status_code r = 200 \<and>
      (case json_body r of
         Some (JObj kvs) \<Rightarrow> (case map_of kvs ''items'' of Some (JArr xs) \<Rightarrow> True | _ \<Rightarrow> False)
       | _ \<Rightarrow> False))"

definition page_items :: "response \<Rightarrow> json list" where
  "page_items r =
     (case json_body r of
        Some (JObj kvs) \<Rightarrow> (case map_of kvs ''items'' of Some (JArr xs) \<Rightarrow> xs | _ \<Rightarrow> [])
      | _ \<Rightarrow> [])"

definition page_next :: "response \<Rightarrow> json" where
  "page_next r = (case json_body r of Some (JObj kvs) \<Rightarrow> dget kvs ''nextPageToken'' JNull | _ \<Rightarrow> JNull)"

fun linked_pages :: "response list \<Rightarrow> bool" where
  "linked_pages [] = False"
| "linked_pages [r] = (is_page r \<and> page_next r = JNull)"
| "linked_pages (r # r' # rs) = (is_page r \<and> page_next r \<noteq> JNull \<and> linked_pages (r' # rs))"

text \<open>
  The requests a walk over the responses \<open>rs\<close> issues, one per response, when it starts
  with the parameters \<open>ps\<close> and the cursor \<open>c\<close> and every response but the last is a page;
  and the parameters and the cursor the walk holds after \<open>rs\<close>.
\<close>

fun page_requests :: "string \<Rightarrow> string \<Rightarrow> params \<Rightarrow> json \<Rightarrow> response list \<Rightarrow> request list" where
  "page_requests u token ps c [] = []"
| "page_requests u token ps c (r # rs) =
     get_request u (cursor_params c ps) token
       # page_requests u token (cursor_params c ps) (page_next r) rs"

fun params_after :: "params \<Rightarrow> json \<Rightarrow> response list \<Rightarrow> params" where
  "params_after ps c [] = ps"
| "params_after ps c (r # rs) = params_after (cursor_params c ps) (page_next r) rs"

fun cursor_after :: "json \<Rightarrow> response list \<Rightarrow> json" where
  "cursor_after c [] = c"
| "cursor_after c (r # rs) = cursor_after (page_next r) rs"

text \<open>
  The tests of the two classification loops: \<^verbatim>\<open>if item.get('deleted')\<close>, the truth
  value of the flag (for a boolean flag, the flag itself), and
  \<^verbatim>\<open>item.get('status') == 'cancelled'\<close>.
\<close>

definition deleted_flag :: "json \<Rightarrow> bool" where
  "deleted_flag item = (case dict_get item ''deleted'' JNull of Inl e \<Rightarrow> False | Inr d \<Rightarrow> truthy d)"

definition cancelled :: "json \<Rightarrow> bool" where
  "cancelled item = (dict_get item ''status'' JNull = Inr (JStr ''cancelled''))"

subsection \<open>A concrete world for the examples\<close>

definition demo_externals :: externals where
  "demo_externals =
     \<lparr>get_token = (\<lambda>account k. ''token'' @ replicate k CHR ''+''),
      parse_datetime =
        (\<lambda>v. if v = JStr ''2024-03-01'' then Inr (63844848000000000)
              else if v = JStr ''2024-03-03'' then Inr (63845020800000000)
              else if v = JStr ''2024-03-01T09:00:00Z'' then Inr (63844880400000000)
              else if v = JStr ''2024-03-01T10:00:00Z'' then Inr (63844884000000000)
              else Inl ValueError),
      py_str = (\<lambda>v. case v of JStr s \<Rightarrow> Inr s | _ \<Rightarrow> Inr ''<json>''),
      py_unicode = (\<lambda>v. case v of JStr s \<Rightarrow> s | _ \<Rightarrow> ''<json>''),
      urllib_quote = (\<lambda>s. s),
      isoformat = (\<lambda>t. if t = 63844880400000000 then ''2024-03-01T09:00:00''
                        else if t = 63844884000000000 then ''2024-03-01T10:00:00''
                        else ''<datetime>''),
      strftime_ymd = (\<lambda>t. if t = 63844848000000000 then Inr ''2024-03-01''
                           else if t = 63844934400000000 then Inr ''2024-03-02''
                           else Inl ValueError)\<rparr>"

definition demo_self :: provider where
  "demo_self = \<lparr>account_id = 1, namespace_id = 1\<rparr>"

definition page :: "json list \<Rightarrow> json option \<Rightarrow> response" where
  "page xs t =
     \<lparr>status_code = 200,
      json_body = Some (JObj ((''items'', JArr xs)
                    # (case t of None \<Rightarrow> [] | Some c \<Rightarrow> [(''nextPageToken'', c)])))\<rparr>"

definition status_only :: "int \<Rightarrow> response" where
  "status_only n = \<lparr>status_code = n, json_body = None\<rparr>"

definition world_of :: "response list \<Rightarrow> world" where
  "world_of rs = \<lparr>pending = rs, sent = [], tokens_acquired = 0\<rparr>"


definition all_day_item :: json where
  "all_day_item =
     JObj [(''id'', JStr ''e1''), (''summary'', JStr ''Offsite''),
           (''start'', JObj [(''date'', JStr ''2024-03-01'')]),
           (''end'', JObj [(''date'', JStr ''2024-03-03'')])]"

definition timed_item :: json where
  "timed_item =
     JObj [(''id'', JStr ''e2''),
           (''start'', JObj [(''dateTime'', JStr ''2024-03-01T09:00:00Z'')]),
           (''end'', JObj [(''dateTime'', JStr ''2024-03-01T10:00:00Z'')]),
           (''attendees'', JArr [JObj [(''email'', JStr ''a@example.com''),
                                       (''responseStatus'', JStr ''accepted'')]])]"

definition unknown_status_item :: json where
  "unknown_status_item =
     JObj [(''id'', JStr ''e3''),
           (''start'', JObj [(''dateTime'', JStr ''2024-03-01T09:00:00Z'')]),
           (''end'', JObj [(''dateTime'', JStr ''2024-03-01T10:00:00Z'')]),
           (''attendees'', JArr [JObj [(''responseStatus'', JStr ''accepted'')],
                                 JObj [(''responseStatus'', JStr ''maybe-later'')]])]"

definition deleted_calendar :: json where
  "deleted_calendar = JObj [(''id'', JStr ''c1''), (''deleted'', JBool True)]"

definition live_calendar :: json where
  "live_calendar =
     JObj [(''id'', JStr ''c2''), (''summary'', JStr ''Work''), (''accessRole'', JStr ''reader'')]"

definition cancelled_item :: json where
  "cancelled_item = JObj [(''id'', JStr ''e0''), (''status'', JStr ''cancelled'')]"

definition local_event :: event where
  "local_event =
     \<lparr>uid = Some ''e7'', raw_data = [], title = JStr ''Review'', description = JNull,
      location = JStr ''Room 1'', busy = False, start = 63844880400000000,
      end_dt = 63844884000000000, all_day = False, owner = [], read_only = False,
      participants = [JObj [(''email'', JStr ''a@example.com''), (''status'', JStr ''maybe'')]],
      source = ''local'',
      calendar = Some \<lparr>calendar.uid = JStr ''cal'', name = JStr ''Work'',
                        calendar.read_only = False, calendar.description = JNull\<rparr>\<rparr>"

section \<open>Properties\<close>

lemma is_pageD:
  assumes "is_page r"
  shows "\<exists>kvs. status_code r = 200 \<and> json_body r = Some (JObj kvs)
           \<and> map_of kvs ''items'' = Some (JArr (page_items r))
           \<and> page_next r = dget kvs ''nextPageToken'' JNull"
proof -
  from assms have st: "status_code r = 200" by (simp add: is_page_def)
  from assms obtain kvs where b: "json_body r = Some (JObj kvs)"
    by (auto simp: is_page_def split: option.splits json.splits)
  from assms b obtain xs where x: "map_of kvs ''items'' = Some (JArr xs)"
    by (auto simp: is_page_def split: option.splits json.splits)
  show ?thesis
    using st b x by (simp add: page_items_def page_next_def)
qed

lemma loop_page:
  assumes "pending w = r # rest" and "is_page r"
  shows "resource_loop L self u ps token items c w =
     (if page_next r = JNull
      then Some (Inr (items @ page_items r),
             w\<lparr>pending := rest, sent := sent w @ [get_request u (cursor_params c ps) token]\<rparr>)
      else resource_loop L self u (cursor_params c ps) token (items @ page_items r) (page_next r)
             (w\<lparr>pending := rest, sent := sent w @ [get_request u (cursor_params c ps) token]\<rparr>))"
proof -
  from is_pageD [OF assms(2)] obtain kvs where
    st: "status_code r = 200" and
    body: "json_body r = Some (JObj kvs)" and
    its: "map_of kvs ''items'' = Some (JArr (page_items r))" and
    nxt: "page_next r = dget kvs ''nextPageToken'' JNull"
    by blast
  have req: "http_request (get_request u (cursor_params c ps) token) w =
     Some (r, w\<lparr>pending := rest, sent := sent w @ [get_request u (cursor_params c ps) token]\<rparr>)"
    by (simp add: http_request_def assms(1))
  show ?thesis
    by (subst resource_loop.simps) (simp add: req st body its nxt)
qed


lemma loop_http_error:
  assumes "pending w = r # rest" and "raises_for_status r" and "status_code r \<noteq> 401"
  shows "resource_loop L self u ps token items c w =
     Some (Inl (HTTPError r),
       w\<lparr>pending := rest, sent := sent w @ [get_request u (cursor_params c ps) token]\<rparr>)"
  using assms
  by (subst resource_loop.simps)
     (auto simp add: http_request_def raises_for_status_def)


lemma loop_pages:
  assumes "pending w = rs @ rest"
    and "\<forall>r \<in> set rs. is_page r \<and> page_next r \<noteq> JNull"
  shows "resource_loop L self u ps token items c w =
     resource_loop L self u (params_after ps c rs) token
       (items @ concat (map page_items rs)) (cursor_after c rs)
       (w\<lparr>pending := rest, sent := sent w @ page_requests u token ps c rs\<rparr>)"
  using assms
proof (induction rs arbitrary: w ps items c)
  case Nil
  then show ?case by (cases w) simp
next
  case (Cons r rs)
  let ?w1 = "w\<lparr>pending := rs @ rest, sent := sent w @ [get_request u (cursor_params c ps) token]\<rparr>"
  have "resource_loop L self u ps token items c w =
        resource_loop L self u (cursor_params c ps) token (items @ page_items r) (page_next r) ?w1"
    using loop_page [of w r "rs @ rest"] Cons.prems by simp
  also have "\<dots> = resource_loop L self u (params_after (cursor_params c ps) (page_next r) rs) token
       ((items @ page_items r) @ concat (map page_items rs)) (cursor_after (page_next r) rs)
       (?w1\<lparr>pending := rest, sent := sent ?w1 @ page_requests u token (cursor_params c ps) (page_next r) rs\<rparr>)"
    by (rule Cons.IH) (use Cons.prems in auto)
  finally show ?case
    by simp
qed

lemma loop_linked:
  assumes "linked_pages pages" and "pending w = pages @ rest"
  shows "resource_loop L self u ps token items c w =
     Some (Inr (items @ concat (map page_items pages)),
       w\<lparr>pending := rest, sent := sent w @ page_requests u token ps c pages\<rparr>)"
  using assms
proof (induction pages arbitrary: w ps items c rule: linked_pages.induct)
  case 1
  then show ?case by simp
next
  case (2 r)
  then show ?case
    using loop_page [of w r rest] by simp
next
  case (3 r r' rs)
  let ?w1 = "w\<lparr>pending := (r' # rs) @ rest, sent := sent w @ [get_request u (cursor_params c ps) token]\<rparr>"
  have "resource_loop L self u ps token items c w =
        resource_loop L self u (cursor_params c ps) token (items @ page_items r) (page_next r) ?w1"
    using loop_page [of w r "(r' # rs) @ rest"] "3.prems" by simp
  also have "\<dots> = Some (Inr ((items @ page_items r) @ concat (map page_items (r' # rs))),
       ?w1\<lparr>pending := rest,
            sent := sent ?w1 @ page_requests u token (cursor_params c ps) (page_next r) (r' # rs)\<rparr>)"
    by (rule "3.IH") (use "3.prems" in auto)
  finally show ?case
    by simp
qed


subsection \<open>Pagination\<close>

text \<open>
  Claim C1. When the remote answers \<^verbatim>\<open>_get_resource_list\<close> with linked pages (each a
  200 response with an \<^verbatim>\<open>items\<close> array, all but the last carrying a \<^verbatim>\<open>nextPageToken\<close>),
  the call returns the concatenation of the pages' items, in the order of the pages and
  with nothing removed. It stops at the page without a \<^verbatim>\<open>nextPageToken\<close>: whatever the
  remote would answer after it (\<open>rest\<close>) is left unasked. It acquires one token and sends
  one request per page, each carrying the cursor of the page before.
\<close>

theorem get_resource_list_pages:
  assumes "linked_pages pages" and "pending w = pages @ rest"
  shows "get_resource_list L self u ps w =
     Some (Inr (concat (map page_items pages)),
       w\<lparr>pending := rest,
          sent := sent w @ page_requests u (get_token L (account_id self) (tokens_acquired w))
                    (AList.update ''showDeleted'' (JBool True) ps) JNull pages,
          tokens_acquired := Suc (tokens_acquired w)\<rparr>)"
  using loop_linked [OF assms(1), of "w\<lparr>tokens_acquired := Suc (tokens_acquired w)\<rparr>" rest] assms(2)
  by (simp add: get_resource_list_def get_access_token_def)

theorem get_resource_list_pages_witness:
  "linked_pages [page [JStr ''a'', JStr ''b''] (Some (JStr ''t1'')), page [JStr ''b'', JStr ''c''] None]
   \<and> get_resource_list demo_externals demo_self ''u'' []
       (world_of [page [JStr ''a'', JStr ''b''] (Some (JStr ''t1'')), page [JStr ''b'', JStr ''c''] None,
                  status_only 500]) =
     Some (Inr [JStr ''a'', JStr ''b'', JStr ''b'', JStr ''c''],
       \<lparr>pending = [status_only 500],
        sent = [get_request ''u'' [(''showDeleted'', JBool True)] ''token'',
                get_request ''u'' [(''showDeleted'', JBool True), (''pageToken'', JStr ''t1'')] ''token''],
        tokens_acquired = 1\<rparr>)"
  using get_resource_list_pages [of "[page [JStr ''a'', JStr ''b''] (Some (JStr ''t1'')), page [JStr ''b'', JStr ''c''] None]"
    "world_of [page [JStr ''a'', JStr ''b''] (Some (JStr ''t1'')), page [JStr ''b'', JStr ''c''] None, status_only 500]"
    "[status_only 500]" demo_externals demo_self "''u''" "[]"]
  by (simp add: is_page_def page_next_def page_items_def page_def dget_def world_of_def
        demo_externals_def demo_self_def cursor_params_def)






lemma page_requests_snoc:
  "page_requests u token ps c (rs @ [r]) =
     page_requests u token ps c rs
       @ [get_request u (cursor_params (cursor_after c rs) (params_after ps c rs)) token]"
  by (induction rs arbitrary: ps c) simp_all

lemma fetch_http_error:
  assumes "\<forall>r \<in> set rs. is_page r \<and> page_next r \<noteq> JNull"
    and "raises_for_status bad" and "status_code bad \<noteq> 401"
    and "pending w = rs @ bad # rest"
  shows "get_resource_list L self u ps w =
     Some (Inl (HTTPError bad),
       w\<lparr>pending := rest,
          sent := sent w @ page_requests u (get_token L (account_id self) (tokens_acquired w))
                    (AList.update ''showDeleted'' (JBool True) ps) JNull (rs @ [bad]),
          tokens_acquired := Suc (tokens_acquired w)\<rparr>)"
proof -
  let ?t = "get_token L (account_id self) (tokens_acquired w)"
  let ?ps = "AList.update ''showDeleted'' (JBool True) ps"
  let ?w1 = "w\<lparr>tokens_acquired := Suc (tokens_acquired w)\<rparr>"
  let ?w2 = "?w1\<lparr>pending := bad # rest, sent := sent ?w1 @ page_requests u ?t ?ps JNull rs\<rparr>"
  have reqs: "page_requests u ?t ?ps JNull (rs @ [bad]) =
      page_requests u ?t ?ps JNull rs
        @ [get_request u (cursor_params (cursor_after JNull rs) (params_after ?ps JNull rs)) ?t]"
    by (rule page_requests_snoc)
  have "get_resource_list L self u ps w = resource_loop L self u ?ps ?t [] JNull ?w1"
    by (simp add: get_resource_list_def get_access_token_def)
  also have "\<dots> = resource_loop L self u (params_after ?ps JNull rs) ?t
                     ([] @ concat (map page_items rs)) (cursor_after JNull rs) ?w2"
    by (rule loop_pages) (use assms in auto)
  also have "\<dots> = Some (Inl (HTTPError bad),
       ?w2\<lparr>pending := rest,
            sent := sent ?w2 @ [get_request u (cursor_params (cursor_after JNull rs)
                                   (params_after ?ps JNull rs)) ?t]\<rparr>)"
    by (rule loop_http_error) (use assms in auto)
  finally show ?thesis
    by (simp add: reqs)
qed

subsection \<open>Evaluating the examples\<close>

lemmas demo_defs =
  demo_externals_def demo_self_def world_of_def page_def status_only_def get_request_def
  events_url_def updated_min_def

lemmas run_defs =
  get_resource_list_def get_access_token_def http_request_def cursor_params_def
  raises_for_status_def dget_def

subsection \<open>The 410 fallback of the events fetch\<close>

text \<open>
  Claim C2. \<^verbatim>\<open>_get_raw_events\<close> called with a \<^verbatim>\<open>sync_from_time\<close>: when the fetch with
  \<^verbatim>\<open>updatedMin\<close> fails, at whatever page, with an \<^verbatim>\<open>HTTPError\<close> of status 410, the call
  is the fetch of the same URL with \<^verbatim>\<open>singleEvents=True\<close> alone, started in the world the
  failed fetch left, and returns what that fetch returns; when it fails with anything
  else, that exception reaches the caller as it is and nothing more is fetched.
\<close>

theorem get_raw_events_410_fallback:
  fixes L self calendar_uid t w
  defines "u \<equiv> events_url L calendar_uid"
    and "filtered \<equiv> [(''updatedMin'', JStr (isoformat L t @ ''Z'')), (''singleEvents'', JBool True)]"
  assumes "get_resource_list L self u filtered w = Some (Inl exc, w1)"
  shows "get_raw_events L self calendar_uid (Some t) w =
     (if \<exists>r. exc = HTTPError r \<and> status_code r = 410
      then get_resource_list L self u [(''singleEvents'', JBool True)] w1
      else Some (Inl exc, w1))"
  using assms(3)
  by (cases exc) (simp_all add: get_raw_events_def u_def filtered_def updated_min_def)

theorem get_raw_events_410_fallback_witness:
  "get_resource_list demo_externals demo_self (events_url demo_externals ''cal'')
     [(''updatedMin'', JStr (isoformat demo_externals 63844880400000000 @ ''Z'')),
      (''singleEvents'', JBool True)]
     (world_of [page [JStr ''a''] (Some (JStr ''t1'')), status_only 410,
                page [JStr ''a'', JStr ''b''] None]) =
     Some (Inl (HTTPError (status_only 410)),
       \<lparr>pending = [page [JStr ''a'', JStr ''b''] None],
        sent = [get_request (events_url demo_externals ''cal'')
                  [(''updatedMin'', JStr ''2024-03-01T09:00:00Z''), (''singleEvents'', JBool True),
                   (''showDeleted'', JBool True)] ''token'',
                get_request (events_url demo_externals ''cal'')
                  [(''updatedMin'', JStr ''2024-03-01T09:00:00Z''), (''singleEvents'', JBool True),
                   (''showDeleted'', JBool True), (''pageToken'', JStr ''t1'')] ''token''],
        tokens_acquired = 1\<rparr>)
   \<and> get_raw_events demo_externals demo_self ''cal'' (Some 63844880400000000)
       (world_of [page [JStr ''a''] (Some (JStr ''t1'')), status_only 410,
                  page [JStr ''a'', JStr ''b''] None]) =
     Some (Inr [JStr ''a'', JStr ''b''],
       \<lparr>pending = [],
        sent = [get_request (events_url demo_externals ''cal'')
                  [(''updatedMin'', JStr ''2024-03-01T09:00:00Z''), (''singleEvents'', JBool True),
                   (''showDeleted'', JBool True)] ''token'',
                get_request (events_url demo_externals ''cal'')
                  [(''updatedMin'', JStr ''2024-03-01T09:00:00Z''), (''singleEvents'', JBool True),
                   (''showDeleted'', JBool True), (''pageToken'', JStr ''t1'')] ''token'',
                get_request (events_url demo_externals ''cal'')
                  [(''singleEvents'', JBool True), (''showDeleted'', JBool True)] ''token+''],
        tokens_acquired = 2\<rparr>)
   \<and> get_raw_events demo_externals demo_self ''cal'' (Some 63844880400000000)
       (world_of [status_only 500, page [] None]) =
     Some (Inl (HTTPError (status_only 500)),
       \<lparr>pending = [page [] None],
        sent = [get_request (events_url demo_externals ''cal'')
                  [(''updatedMin'', JStr ''2024-03-01T09:00:00Z''), (''singleEvents'', JBool True),
                   (''showDeleted'', JBool True)] ''token''],
        tokens_acquired = 1\<rparr>)"
proof -
  let ?u = "events_url demo_externals ''cal''"
  let ?f = "[(''updatedMin'', JStr (isoformat demo_externals 63844880400000000 @ ''Z'')),
             (''singleEvents'', JBool True)]"
  let ?w = "world_of [page [JStr ''a''] (Some (JStr ''t1'')), status_only 410,
                      page [JStr ''a'', JStr ''b''] None]"
  let ?w1 = "\<lparr>pending = [page [JStr ''a'', JStr ''b''] None],
        sent = [get_request ?u
                  [(''updatedMin'', JStr ''2024-03-01T09:00:00Z''), (''singleEvents'', JBool True),
                   (''showDeleted'', JBool True)] ''token'',
                get_request ?u
                  [(''updatedMin'', JStr ''2024-03-01T09:00:00Z''), (''singleEvents'', JBool True),
                   (''showDeleted'', JBool True), (''pageToken'', JStr ''t1'')] ''token''],
        tokens_acquired = 1\<rparr>"
  let ?v = "world_of [status_only 500, page [] None]"
  let ?v1 = "\<lparr>pending = [page [] None],
        sent = [get_request ?u
                  [(''updatedMin'', JStr ''2024-03-01T09:00:00Z''), (''singleEvents'', JBool True),
                   (''showDeleted'', JBool True)] ''token''],
        tokens_acquired = 1\<rparr>"
  have first: "get_resource_list demo_externals demo_self ?u ?f ?w =
      Some (Inl (HTTPError (status_only 410)), ?w1)"
    by (simp add: run_defs demo_defs resource_loop.simps)
  have retry: "get_resource_list demo_externals demo_self ?u [(''singleEvents'', JBool True)] ?w1 =
      Some (Inr [JStr ''a'', JStr ''b''],
        ?w1\<lparr>pending := [],
             sent := sent ?w1 @ [get_request ?u
                  [(''singleEvents'', JBool True), (''showDeleted'', JBool True)] ''token+''],
             tokens_acquired := 2\<rparr>)"
    by (simp add: run_defs demo_defs resource_loop.simps)
  have other: "get_resource_list demo_externals demo_self ?u ?f ?v =
      Some (Inl (HTTPError (status_only 500)), ?v1)"
    by (simp add: run_defs demo_defs resource_loop.simps)
  show ?thesis
    using get_raw_events_410_fallback [OF first] get_raw_events_410_fallback [OF other]
      first retry
    by (simp add: status_only_def)
qed

text \<open>
  Claim C10. \<^verbatim>\<open>_get_raw_events\<close> called without a \<^verbatim>\<open>sync_from_time\<close> passes
  \<^verbatim>\<open>updatedMin=None\<close>, which puts no filter on the wire. A 410 failure of that fetch is
  answered by the same fallback: one more fetch, whose parameters are exactly the query
  parameters of the first; a failure of that second fetch, a 410 included, is the
  result of the call.
\<close>

theorem get_raw_events_unfiltered_410:
  fixes L self calendar_uid w
  defines "u \<equiv> events_url L calendar_uid"
    and "unfiltered \<equiv> [(''updatedMin'', JNull), (''singleEvents'', JBool True)]"
    and "again \<equiv> [(''singleEvents'', JBool True)]"
  assumes "get_resource_list L self u unfiltered w = Some (Inl (HTTPError r), w1)"
    and "status_code r = 410"
  shows "get_raw_events L self calendar_uid None w = get_resource_list L self u again w1
     \<and> query_params unfiltered = again
     \<and> (\<forall>r2 w2. get_resource_list L self u again w1 = Some (Inl (HTTPError r2), w2) \<longrightarrow>
           get_raw_events L self calendar_uid None w = Some (Inl (HTTPError r2), w2))"
proof -
  have eq: "get_raw_events L self calendar_uid None w = get_resource_list L self u again w1"
    using assms(4,5)
    by (simp add: get_raw_events_def u_def unfiltered_def again_def updated_min_def)
  have "query_params unfiltered = again"
    by (simp add: query_params_def unfiltered_def again_def)
  with eq show ?thesis
    by simp
qed

theorem get_raw_events_unfiltered_410_witness:
  "get_resource_list demo_externals demo_self (events_url demo_externals ''cal'')
     [(''updatedMin'', JNull), (''singleEvents'', JBool True)]
     (world_of [status_only 410, status_only 410, page [] None]) =
     Some (Inl (HTTPError (status_only 410)),
       \<lparr>pending = [status_only 410, page [] None],
        sent = [get_request (events_url demo_externals ''cal'')
                  [(''updatedMin'', JNull), (''singleEvents'', JBool True),
                   (''showDeleted'', JBool True)] ''token''],
        tokens_acquired = 1\<rparr>)
   \<and> status_code (status_only 410) = 410
   \<and> get_raw_events demo_externals demo_self ''cal'' None
       (world_of [status_only 410, status_only 410, page [] None]) =
     Some (Inl (HTTPError (status_only 410)),
       \<lparr>pending = [page [] None],
        sent = [get_request (events_url demo_externals ''cal'')
                  [(''updatedMin'', JNull), (''singleEvents'', JBool True),
                   (''showDeleted'', JBool True)] ''token'',
                get_request (events_url demo_externals ''cal'')
                  [(''singleEvents'', JBool True), (''showDeleted'', JBool True)] ''token+''],
        tokens_acquired = 2\<rparr>)"
proof -
  let ?u = "events_url demo_externals ''cal''"
  let ?w = "world_of [status_only 410, status_only 410, page [] None]"
  let ?w1 = "\<lparr>pending = [status_only 410, page [] None],
        sent = [get_request ?u
                  [(''updatedMin'', JNull), (''singleEvents'', JBool True),
                   (''showDeleted'', JBool True)] ''token''],
        tokens_acquired = 1\<rparr>"
  have first: "get_resource_list demo_externals demo_self ?u
        [(''updatedMin'', JNull), (''singleEvents'', JBool True)] ?w =
      Some (Inl (HTTPError (status_only 410)), ?w1)"
    by (simp add: run_defs demo_defs resource_loop.simps)
  have st: "status_code (status_only 410) = 410"
    by (simp add: status_only_def)
  have retry: "get_resource_list demo_externals demo_self ?u [(''singleEvents'', JBool True)] ?w1 =
      Some (Inl (HTTPError (status_only 410)),
        ?w1\<lparr>pending := [page [] None],
             sent := sent ?w1 @ [get_request ?u
                  [(''singleEvents'', JBool True), (''showDeleted'', JBool True)] ''token+''],
             tokens_acquired := 2\<rparr>)"
    by (simp add: run_defs demo_defs resource_loop.simps)
  show ?thesis
    using get_raw_events_unfiltered_410 [OF first st] first retry st
    by simp
qed

text \<open>
  The fallback on a whole run, with or without a \<^verbatim>\<open>sync_from_time\<close>: the pages \<open>rs\<close>
  fetched before the 410 are dropped, a second token is acquired, and the result is the
  pages of the second fetch, which is sent without \<^verbatim>\<open>updatedMin\<close>.
\<close>

lemma get_raw_events_410_run:
  fixes L self calendar_uid since w
  defines "u \<equiv> events_url L calendar_uid"
    and "t0 \<equiv> get_token L (account_id self) (tokens_acquired w)"
    and "t1 \<equiv> get_token L (account_id self) (Suc (tokens_acquired w))"
  assumes "\<forall>r \<in> set rs. is_page r \<and> page_next r \<noteq> JNull"
    and "status_code gone = 410"
    and "linked_pages full"
    and "pending w = rs @ gone # full @ rest"
  shows "get_raw_events L self calendar_uid since w =
     Some (Inr (concat (map page_items full)),
       w\<lparr>pending := rest,
          sent := sent w
            @ page_requests u t0
                [(''updatedMin'', updated_min L since), (''singleEvents'', JBool True),
                 (''showDeleted'', JBool True)] JNull (rs @ [gone])
            @ page_requests u t1
                [(''singleEvents'', JBool True), (''showDeleted'', JBool True)] JNull full,
          tokens_acquired := Suc (Suc (tokens_acquired w))\<rparr>)"
proof -
  let ?w1 = "w\<lparr>pending := full @ rest,
                sent := sent w @ page_requests u t0
                  (AList.update ''showDeleted'' (JBool True)
                     [(''updatedMin'', updated_min L since), (''singleEvents'', JBool True)])
                  JNull (rs @ [gone]),
                tokens_acquired := Suc (tokens_acquired w)\<rparr>"
  have bad: "raises_for_status gone" "status_code gone \<noteq> 401"
    using assms(5) by (simp_all add: raises_for_status_def)
  have first: "get_resource_list L self u
        [(''updatedMin'', updated_min L since), (''singleEvents'', JBool True)] w =
      Some (Inl (HTTPError gone), ?w1)"
    using fetch_http_error [OF assms(4) bad, of w "full @ rest" L self u] assms(7)
    by (simp add: t0_def)
  have "get_resource_list L self u [(''singleEvents'', JBool True)] ?w1 =
      resource_loop L self u [(''singleEvents'', JBool True), (''showDeleted'', JBool True)]
        t1 [] JNull (?w1\<lparr>tokens_acquired := Suc (Suc (tokens_acquired w))\<rparr>)"
    by (simp add: get_resource_list_def get_access_token_def t1_def)
  also have "\<dots> = Some (Inr ([] @ concat (map page_items full)),
      ?w1\<lparr>tokens_acquired := Suc (Suc (tokens_acquired w)), pending := rest,
           sent := sent ?w1 @ page_requests u t1
             [(''singleEvents'', JBool True), (''showDeleted'', JBool True)] JNull full\<rparr>)"
    using loop_linked [OF assms(6),
        of "?w1\<lparr>tokens_acquired := Suc (Suc (tokens_acquired w))\<rparr>" rest L self u _ t1 "[]" JNull]
    by simp
  finally have again: "get_resource_list L self u [(''singleEvents'', JBool True)] ?w1 =
      Some (Inr (concat (map page_items full)),
        ?w1\<lparr>tokens_acquired := Suc (Suc (tokens_acquired w)), pending := rest,
           sent := sent ?w1 @ page_requests u t1
             [(''singleEvents'', JBool True), (''showDeleted'', JBool True)] JNull full\<rparr>)"
    by simp
  show ?thesis
    using first again assms(5)
    by (simp add: get_raw_events_def u_def)
qed

subsection \<open>Translating a remote event\<close>

lemma getitem_Inr:
  "getitem x k = Inr v \<longleftrightarrow> (\<exists>kvs. x = JObj kvs \<and> map_of kvs k = Some v)"
  by (cases x) (auto split: option.splits)

lemma event_times_Inr:
  assumes "event_times L s e = Inr (a, st, en)"
  shows "a = (contains ''date'' s = Inr True \<and> contains ''date'' e = Inr True)"
    and "a \<Longrightarrow> \<exists>sd ed t. getitem s ''date'' = Inr sd \<and> parse_datetime L sd = Inr st
                 \<and> getitem e ''date'' = Inr ed \<and> parse_datetime L ed = Inr t
                 \<and> minus_one_day t = Inr en"
    and "\<not> a \<Longrightarrow> \<exists>sd ed. getitem s ''dateTime'' = Inr sd \<and> parse_datetime L sd = Inr st
                 \<and> getitem e ''dateTime'' = Inr ed \<and> parse_datetime L ed = Inr en"
  using assms
  by (auto simp: event_times_def split: sum.splits if_splits)

lemma minus_one_day_Inr: "minus_one_day t = Inr t' \<Longrightarrow> t' = t - one_day"
  by (auto simp: minus_one_day_def split: if_splits)

lemma parse_event_response_Inr:
  assumes "parse_event_response L item = Inr ev"
  shows "\<exists>kvs s e. item = JObj kvs \<and> getitem item ''start'' = Inr s \<and> getitem item ''end'' = Inr e
           \<and> event_times L s e = Inr (all_day ev, start ev, end_dt ev)"
proof (cases item)
  case (JObj kvs)
  with assms show ?thesis
    by (auto split: sum.splits prod.splits)
qed (use assms in simp_all)

text \<open>
  Claim C4. Whenever \<^verbatim>\<open>parse_event_response\<close> returns an event, the item's \<^verbatim>\<open>start\<close>
  and \<^verbatim>\<open>end\<close> are objects, \<^verbatim>\<open>all_day\<close> is true exactly when both have a \<^verbatim>\<open>date\<close> field,
  and then the event's start is the parsed \<^verbatim>\<open>start.date\<close> and its end is the parsed
  \<^verbatim>\<open>end.date\<close> minus one day; otherwise start and end are the parsed \<^verbatim>\<open>dateTime\<close>
  fields.
\<close>

theorem parse_event_response_all_day:
  assumes "parse_event_response L item = Inr ev"
  shows "\<exists>s e. getitem item ''start'' = Inr (JObj s) \<and> getitem item ''end'' = Inr (JObj e)
     \<and> all_day ev = (map_of s ''date'' \<noteq> None \<and> map_of e ''date'' \<noteq> None)
     \<and> (if all_day ev
         then \<exists>sd ed t. map_of s ''date'' = Some sd \<and> parse_datetime L sd = Inr (start ev)
                \<and> map_of e ''date'' = Some ed \<and> parse_datetime L ed = Inr t
                \<and> end_dt ev = t - one_day
         else \<exists>sd ed. map_of s ''dateTime'' = Some sd \<and> parse_datetime L sd = Inr (start ev)
                \<and> map_of e ''dateTime'' = Some ed \<and> parse_datetime L ed = Inr (end_dt ev))"
proof -
  from parse_event_response_Inr [OF assms] obtain s' e' where
    s: "getitem item ''start'' = Inr s'" and e: "getitem item ''end'' = Inr e'" and
    t: "event_times L s' e' = Inr (all_day ev, start ev, end_dt ev)"
    by blast
  note et = event_times_Inr [OF t]
  show ?thesis
  proof (cases "all_day ev")
    case True
    with et(2) obtain sd ed t where *:
      "getitem s' ''date'' = Inr sd" "parse_datetime L sd = Inr (start ev)"
      "getitem e' ''date'' = Inr ed" "parse_datetime L ed = Inr t" "minus_one_day t = Inr (end_dt ev)"
      by blast
    from *(1,3) obtain sk ek where "s' = JObj sk" "e' = JObj ek"
      "map_of sk ''date'' = Some sd" "map_of ek ''date'' = Some ed"
      by (auto simp: getitem_Inr)
    with True s e * show ?thesis
      by (auto dest: minus_one_day_Inr)
  next
    case False
    with et(3) obtain sd ed where *:
      "getitem s' ''dateTime'' = Inr sd" "parse_datetime L sd = Inr (start ev)"
      "getitem e' ''dateTime'' = Inr ed" "parse_datetime L ed = Inr (end_dt ev)"
      by blast
    from *(1,3) obtain sk ek where "s' = JObj sk" "e' = JObj ek"
      "map_of sk ''dateTime'' = Some sd" "map_of ek ''dateTime'' = Some ed"
      by (auto simp: getitem_Inr)
    with False s e et(1) * show ?thesis
      by auto
  qed
qed

lemma all_day_item_parses:
  "parse_event_response demo_externals all_day_item =
     Inr \<lparr>uid = Some ''e1'', raw_data = ''<json>'', title = JStr ''Offsite'', description = JNull,
          location = JNull, busy = True, start = 63844848000000000,
          end_dt = 63844934400000000, all_day = True, owner = [], read_only = True,
          participants = [], source = ''local'', calendar = None\<rparr>"
  by (simp add: all_day_item_def demo_externals_def event_times_def event_owner_def dget_def
        minus_one_day_def one_day_def)

lemma timed_item_parses:
  "parse_event_response demo_externals timed_item =
     Inr \<lparr>uid = Some ''e2'', raw_data = ''<json>'', title = JStr [], description = JNull,
          location = JNull, busy = True, start = 63844880400000000,
          end_dt = 63844884000000000, all_day = False, owner = [], read_only = True,
          participants = [JObj [(''email'', JStr ''a@example.com''), (''name'', JNull),
                                (''status'', JStr ''yes''), (''notes'', JNull)]],
          source = ''local'', calendar = None\<rparr>"
  by (simp add: timed_item_def demo_externals_def event_times_def event_owner_def dget_def
        STATUS_MAP_def)

theorem parse_event_response_all_day_witness:
  "(\<exists>ev. parse_event_response demo_externals all_day_item = Inr ev \<and> all_day ev
        \<and> start ev = 63844848000000000 \<and> end_dt ev = 63845020800000000 - one_day
        \<and> end_dt ev = 63844934400000000)
   \<and> (\<exists>ev. parse_event_response demo_externals timed_item = Inr ev \<and> \<not> all_day ev
        \<and> start ev = 63844880400000000 \<and> end_dt ev = 63844884000000000)"
  using parse_event_response_all_day [OF all_day_item_parses]
    parse_event_response_all_day [OF timed_item_parses]
  by (simp add: all_day_item_parses timed_item_parses one_day_def)

lemma status_lookup_Inr:
  "status_lookup d v = Inr x \<Longrightarrow> \<exists>s. v = JStr s \<and> map_of d s = Some x"
  by (cases v) (auto split: option.splits)

lemma STATUS_MAP_keys:
  "map_of STATUS_MAP s = Some x \<Longrightarrow> s \<in> fst ` set STATUS_MAP"
  by (auto dest: map_of_SomeD intro: rev_image_eqI)

lemma attendees_loop_unknown_status:
  assumes "a \<in> set atts"
    and "\<forall>s \<in> fst ` set STATUS_MAP. dict_get a ''responseStatus'' JNull \<noteq> Inr (JStr s)"
  shows "\<exists>e. attendees_loop atts ptcs = Inl e"
  using assms(1)
proof (induction atts arbitrary: ptcs)
  case Nil
  then show ?case by simp
next
  case (Cons x atts)
  show ?case
  proof (cases "x = a")
    case True
    have "status_lookup STATUS_MAP rs = Inr st \<Longrightarrow> dict_get a ''responseStatus'' JNull \<noteq> Inr rs"
      for rs st
      using assms(2) by (auto dest!: status_lookup_Inr STATUS_MAP_keys)
    with True show ?thesis
      by (auto split: sum.splits)
  next
    case False
    with Cons.prems have "a \<in> set atts" by simp
    from Cons.IH [OF this] show ?thesis
      by (auto split: sum.splits)
  qed
qed

text \<open>
  Claim C6. An item whose \<^verbatim>\<open>attendees\<close> array has an element whose
  \<^verbatim>\<open>responseStatus\<close> is not one of the four keys of \<^verbatim>\<open>STATUS_MAP\<close> (it is another
  value, or absent and read as \<^verbatim>\<open>None\<close>, or the element is no object at all) is never
  translated: \<^verbatim>\<open>parse_event_response\<close> raises.
\<close>

theorem parse_event_response_unknown_status:
  assumes "getitem item ''attendees'' = Inr (JArr atts)"
    and "a \<in> set atts"
    and "\<forall>s \<in> fst ` set STATUS_MAP. dict_get a ''responseStatus'' JNull \<noteq> Inr (JStr s)"
  shows "\<exists>e. parse_event_response L item = Inl e"
proof -
  from assms(1) obtain kvs where item: "item = JObj kvs" and
    atts: "map_of kvs ''attendees'' = Some (JArr atts)"
    by (auto simp: getitem_Inr)
  have it: "iterate (dget kvs ''attendees'' (JArr [])) = Inr atts"
    by (simp add: dget_def atts)
  from attendees_loop_unknown_status [OF assms(2,3)]
  obtain e where "attendees_loop atts [] = Inl e"
    by blast
  with item it show ?thesis
    by (auto split: sum.splits prod.splits)
qed

theorem parse_event_response_unknown_status_witness:
  "getitem unknown_status_item ''attendees'' =
     Inr (JArr [JObj [(''responseStatus'', JStr ''accepted'')],
                JObj [(''responseStatus'', JStr ''maybe-later'')]])
   \<and> dict_get (JObj [(''responseStatus'', JStr ''maybe-later'')]) ''responseStatus'' JNull
       = Inr (JStr ''maybe-later'')
   \<and> ''maybe-later'' \<notin> fst ` set STATUS_MAP
   \<and> parse_event_response demo_externals unknown_status_item = Inl (KeyError (JStr ''maybe-later''))"
proof -
  have 1: "getitem unknown_status_item ''attendees'' =
     Inr (JArr [JObj [(''responseStatus'', JStr ''accepted'')],
                JObj [(''responseStatus'', JStr ''maybe-later'')]])"
    by (simp add: unknown_status_item_def)
  have 2: "JObj [(''responseStatus'', JStr ''maybe-later'')]
      \<in> set [JObj [(''responseStatus'', JStr ''accepted'')],
              JObj [(''responseStatus'', JStr ''maybe-later'')]]"
    by simp
  have 3: "\<forall>s \<in> fst ` set STATUS_MAP.
      dict_get (JObj [(''responseStatus'', JStr ''maybe-later'')]) ''responseStatus'' JNull
        \<noteq> Inr (JStr s)"
    by (simp add: STATUS_MAP_def dget_def)
  have 4: "parse_event_response demo_externals unknown_status_item =
      Inl (KeyError (JStr ''maybe-later''))"
    by (simp add: unknown_status_item_def demo_externals_def event_times_def event_owner_def
          dget_def STATUS_MAP_def)
  show ?thesis
    using parse_event_response_unknown_status [OF 1 2 3, of demo_externals] 1 4
    by (simp add: STATUS_MAP_def dget_def)
qed

subsection \<open>The attendee status table\<close>

lemma create_attendee_status:
  assumes "map_of p ''status'' = Some (JStr l)" and "map_of inv_status_map l = Some r"
  shows "\<exists>att. create_attendee (JObj p) = Inr att \<and> map_of att ''responseStatus'' = Some (JStr r)"
  using assms
  by (auto simp: create_attendee_def copy_field_def inv_status_def AList.update_conv'
           split: sum.splits option.splits)

lemma attendees_loop_single:
  assumes "dget a ''responseStatus'' JNull = JStr r" and "map_of STATUS_MAP r = Some l"
  shows "attendees_loop [JObj a] [] =
     Inr [JObj [(''email'', dget a ''email'' JNull), (''name'', dget a ''displayName'' JNull),
                (''status'', JStr l), (''notes'', dget a ''comment'' JNull)]]"
  using assms by simp

text \<open>
  Claim C5. For each of the four pairs of the table: an attendee with the remote status
  is parsed into a participant with the local status, from which \<^verbatim>\<open>_create_attendee\<close>
  gives back the remote status; and a participant with the local status is dumped to an
  attendee with the remote status, which is parsed back into the local status.
\<close>

theorem status_round_trip:
  "\<forall>(remote, local) \<in> set [(''accepted'', ''yes''), (''needsAction'', ''noreply''),
                              (''declined'', ''no''), (''tentative'', ''maybe'')].
     (\<forall>a. dget a ''responseStatus'' JNull = JStr remote \<longrightarrow>
        (\<exists>p att. attendees_loop [JObj a] [] = Inr [p] \<and> getitem p ''status'' = Inr (JStr local)
           \<and> create_attendee p = Inr att \<and> map_of att ''responseStatus'' = Some (JStr remote)))
     \<and> (\<forall>p. map_of p ''status'' = Some (JStr local) \<longrightarrow>
        (\<exists>att q. create_attendee (JObj p) = Inr att
           \<and> map_of att ''responseStatus'' = Some (JStr remote)
           \<and> attendees_loop [JObj att] [] = Inr [q] \<and> getitem q ''status'' = Inr (JStr local)))"
proof -
  have one: "(\<forall>a. dget a ''responseStatus'' JNull = JStr remote \<longrightarrow>
        (\<exists>p att. attendees_loop [JObj a] [] = Inr [p] \<and> getitem p ''status'' = Inr (JStr local)
           \<and> create_attendee p = Inr att \<and> map_of att ''responseStatus'' = Some (JStr remote)))
     \<and> (\<forall>p. map_of p ''status'' = Some (JStr local) \<longrightarrow>
        (\<exists>att q. create_attendee (JObj p) = Inr att
           \<and> map_of att ''responseStatus'' = Some (JStr remote)
           \<and> attendees_loop [JObj att] [] = Inr [q] \<and> getitem q ''status'' = Inr (JStr local)))"
    if fw: "map_of STATUS_MAP remote = Some local" and bw: "map_of inv_status_map local = Some remote"
    for remote local
  proof (intro conjI allI impI)
    fix a assume a: "dget a ''responseStatus'' JNull = JStr remote"
    let ?p = "[(''email'', dget a ''email'' JNull), (''name'', dget a ''displayName'' JNull),
               (''status'', JStr local), (''notes'', dget a ''comment'' JNull)]"
    have "attendees_loop [JObj a] [] = Inr [JObj ?p]"
      by (rule attendees_loop_single [OF a fw])
    moreover have "getitem (JObj ?p) ''status'' = Inr (JStr local)"
      by simp
    moreover have "\<exists>att. create_attendee (JObj ?p) = Inr att
        \<and> map_of att ''responseStatus'' = Some (JStr remote)"
      by (rule create_attendee_status [OF _ bw]) simp
    ultimately show "\<exists>p att. attendees_loop [JObj a] [] = Inr [p]
        \<and> getitem p ''status'' = Inr (JStr local)
        \<and> create_attendee p = Inr att \<and> map_of att ''responseStatus'' = Some (JStr remote)"
      by blast
  next
    fix p assume p: "map_of p ''status'' = Some (JStr local)"
    from create_attendee_status [OF p bw] obtain att where
      att: "create_attendee (JObj p) = Inr att" "map_of att ''responseStatus'' = Some (JStr remote)"
      by blast
    have "dget att ''responseStatus'' JNull = JStr remote"
      by (simp add: dget_def att(2))
    from attendees_loop_single [OF this fw] att
    show "\<exists>att q. create_attendee (JObj p) = Inr att
        \<and> map_of att ''responseStatus'' = Some (JStr remote)
        \<and> attendees_loop [JObj att] [] = Inr [q] \<and> getitem q ''status'' = Inr (JStr local)"
      by auto
  qed
  show ?thesis
    by (simp only: list.set ball_simps prod.case simp_thms)
       (intro conjI one; simp add: STATUS_MAP_def inv_status_map_def)
qed

theorem status_round_trip_witness:
  "(\<exists>p att. attendees_loop
        [JObj [(''email'', JStr ''a@example.com''), (''responseStatus'', JStr ''declined'')]] []
          = Inr [p]
      \<and> getitem p ''status'' = Inr (JStr ''no'')
      \<and> create_attendee p = Inr att \<and> map_of att ''responseStatus'' = Some (JStr ''declined''))
   \<and> (\<exists>att q. create_attendee (JObj [(''status'', JStr ''no'')]) = Inr att
      \<and> map_of att ''responseStatus'' = Some (JStr ''declined'')
      \<and> attendees_loop [JObj att] [] = Inr [q] \<and> getitem q ''status'' = Inr (JStr ''no''))
   \<and> attendees_loop
        [JObj [(''email'', JStr ''a@example.com''), (''responseStatus'', JStr ''declined'')]] []
       = Inr [JObj [(''email'', JStr ''a@example.com''), (''name'', JNull),
                    (''status'', JStr ''no''), (''notes'', JNull)]]
   \<and> create_attendee (JObj [(''email'', JStr ''a@example.com''), (''name'', JNull),
                             (''status'', JStr ''no''), (''notes'', JNull)])
       = Inr [(''displayName'', JNull), (''responseStatus'', JStr ''declined''),
              (''email'', JStr ''a@example.com'')]"
proof -
  have m: "(''declined'', ''no'') \<in> set [(''accepted'', ''yes''), (''needsAction'', ''noreply''),
                              (''declined'', ''no''), (''tentative'', ''maybe'')]"
    by simp
  have a: "dget [(''email'', JStr ''a@example.com''), (''responseStatus'', JStr ''declined'')]
             ''responseStatus'' JNull = JStr ''declined''"
    by (simp add: dget_def)
  have p: "map_of [(''status'', JStr ''no'')] ''status'' = Some (JStr ''no'')"
    by simp
  from bspec [OF status_round_trip m] a p
  have "(\<exists>p att. attendees_loop
        [JObj [(''email'', JStr ''a@example.com''), (''responseStatus'', JStr ''declined'')]] []
          = Inr [p]
      \<and> getitem p ''status'' = Inr (JStr ''no'')
      \<and> create_attendee p = Inr att \<and> map_of att ''responseStatus'' = Some (JStr ''declined''))
   \<and> (\<exists>att q. create_attendee (JObj [(''status'', JStr ''no'')]) = Inr att
      \<and> map_of att ''responseStatus'' = Some (JStr ''declined'')
      \<and> attendees_loop [JObj att] [] = Inr [q] \<and> getitem q ''status'' = Inr (JStr ''no''))"
    by (simp only: prod.case)
  moreover have "attendees_loop
        [JObj [(''email'', JStr ''a@example.com''), (''responseStatus'', JStr ''declined'')]] []
       = Inr [JObj [(''email'', JStr ''a@example.com''), (''name'', JNull),
                    (''status'', JStr ''no''), (''notes'', JNull)]]"
    by (simp add: dget_def STATUS_MAP_def)
  moreover have "create_attendee (JObj [(''email'', JStr ''a@example.com''), (''name'', JNull),
                             (''status'', JStr ''no''), (''notes'', JNull)])
       = Inr [(''displayName'', JNull), (''responseStatus'', JStr ''declined''),
              (''email'', JStr ''a@example.com'')]"
    by (simp add: create_attendee_def copy_field_def inv_status_def inv_status_map_def
          STATUS_MAP_def)
  ultimately show ?thesis
    by (intro conjI) (erule conjunct1, erule conjunct2, assumption+)
qed

subsection \<open>Deleted calendars and cancelled events\<close>

lemma calendars_loop_Inr:
  assumes "calendars_loop items ds us = Inr (ds', us')"
  shows "map Inr ds' = map Inr ds @ map (\<lambda>i. getitem i ''id'') (filter deleted_flag items)
     \<and> map Inr us' = map Inr us @ map parse_calendar_response (filter (\<lambda>i. \<not> deleted_flag i) items)"
  using assms
proof (induction items arbitrary: ds us)
  case Nil
  then show ?case by simp
next
  case (Cons item items)
  from Cons.prems obtain d where d: "dict_get item ''deleted'' JNull = Inr d"
    by (auto split: sum.splits)
  show ?case
  proof (cases "truthy d")
    case True
    with Cons.prems d obtain i where i: "getitem item ''id'' = Inr i"
      and rest: "calendars_loop items (ds @ [i]) us = Inr (ds', us')"
      by (auto split: sum.splits)
    from Cons.IH [OF rest] True d i show ?thesis
      by (simp add: deleted_flag_def)
  next
    case False
    with Cons.prems d obtain c where c: "parse_calendar_response item = Inr c"
      and rest: "calendars_loop items ds (us @ [c]) = Inr (ds', us')"
      by (auto split: sum.splits)
    from Cons.IH [OF rest] False d c show ?thesis
      by (simp add: deleted_flag_def)
  qed
qed

lemma events_loop_Inr:
  assumes "events_loop L items ds us = Inr (ds', us')"
  shows "map Inr ds' = map Inr ds @ map (\<lambda>i. getitem i ''id'') (filter cancelled items)
     \<and> map Inr us' = map Inr us @ map (parse_event_response L) (filter (\<lambda>i. \<not> cancelled i) items)"
  using assms
proof (induction items arbitrary: ds us)
  case Nil
  then show ?case by simp
next
  case (Cons item items)
  from Cons.prems obtain st where st: "dict_get item ''status'' JNull = Inr st"
    by (auto split: sum.splits)
  show ?case
  proof (cases "st = JStr ''cancelled''")
    case True
    with Cons.prems st obtain i where i: "getitem item ''id'' = Inr i"
      and rest: "events_loop L items (ds @ [i]) us = Inr (ds', us')"
      by (auto split: sum.splits)
    from Cons.IH [OF rest] True st i show ?thesis
      by (simp add: cancelled_def)
  next
    case False
    with Cons.prems st obtain ev where ev: "parse_event_response L item = Inr ev"
      and rest: "events_loop L items ds (us @ [ev]) = Inr (ds', us')"
      by (auto split: sum.splits)
    from Cons.IH [OF rest] False st ev show ?thesis
      by (simp add: cancelled_def)
  qed
qed

lemma parse_calendar_response_object:
  "parse_calendar_response item = Inr c \<Longrightarrow> \<exists>kvs. item = JObj kvs"
  by (cases item) (simp_all add: parse_calendar_response_def)

lemma parse_event_response_object:
  "parse_event_response L item = Inr ev \<Longrightarrow> \<exists>kvs. item = JObj kvs"
  by (cases item) simp_all

lemma calendars_loop_complete:
  assumes "map (\<lambda>i. getitem i ''id'') (filter deleted_flag items) = map Inr ds'"
    and "map parse_calendar_response (filter (\<lambda>i. \<not> deleted_flag i) items) = map Inr us'"
  shows "calendars_loop items ds us = Inr (ds @ ds', us @ us')"
  using assms
proof (induction items arbitrary: ds us ds' us')
  case Nil
  then show ?case by simp
next
  case (Cons item items)
  show ?case
  proof (cases "deleted_flag item")
    case True
    then obtain d where d: "dict_get item ''deleted'' JNull = Inr d" "truthy d"
      by (auto simp: deleted_flag_def split: sum.splits)
    from True Cons.prems(1) obtain i ds'' where i: "getitem item ''id'' = Inr i"
      and ds': "ds' = i # ds''"
      and rest: "map (\<lambda>i. getitem i ''id'') (filter deleted_flag items) = map Inr ds''"
      by (cases ds') auto
    from True Cons.prems(2)
    have "map parse_calendar_response (filter (\<lambda>i. \<not> deleted_flag i) items) = map Inr us'"
      by simp
    from Cons.IH [OF rest this, of "ds @ [i]" us] d i ds' show ?thesis
      by simp
  next
    case False
    with Cons.prems(2) obtain c us'' where c: "parse_calendar_response item = Inr c"
      and us': "us' = c # us''"
      and rest: "map parse_calendar_response (filter (\<lambda>i. \<not> deleted_flag i) items) = map Inr us''"
      by (cases us') auto
    from parse_calendar_response_object [OF c] obtain kvs where "item = JObj kvs"
      by blast
    with False have d: "dict_get item ''deleted'' JNull = Inr (dget kvs ''deleted'' JNull)"
      "\<not> truthy (dget kvs ''deleted'' JNull)"
      by (simp_all add: deleted_flag_def)
    from False Cons.prems(1)
    have "map (\<lambda>i. getitem i ''id'') (filter deleted_flag items) = map Inr ds'"
      by simp
    from Cons.IH [OF this rest, of ds "us @ [c]"] d c us' show ?thesis
      by simp
  qed
qed

lemma events_loop_complete:
  assumes "map (\<lambda>i. getitem i ''id'') (filter cancelled items) = map Inr ds'"
    and "map (parse_event_response L) (filter (\<lambda>i. \<not> cancelled i) items) = map Inr us'"
  shows "events_loop L items ds us = Inr (ds @ ds', us @ us')"
  using assms
proof (induction items arbitrary: ds us ds' us')
  case Nil
  then show ?case by simp
next
  case (Cons item items)
  show ?case
  proof (cases "cancelled item")
    case True
    then have st: "dict_get item ''status'' JNull = Inr (JStr ''cancelled'')"
      by (simp add: cancelled_def)
    from True Cons.prems(1) obtain i ds'' where i: "getitem item ''id'' = Inr i"
      and ds': "ds' = i # ds''"
      and rest: "map (\<lambda>i. getitem i ''id'') (filter cancelled items) = map Inr ds''"
      by (cases ds') auto
    from True Cons.prems(2)
    have "map (parse_event_response L) (filter (\<lambda>i. \<not> cancelled i) items) = map Inr us'"
      by simp
    from Cons.IH [OF rest this, of "ds @ [i]" us] st i ds' show ?thesis
      by simp
  next
    case False
    with Cons.prems(2) obtain ev us'' where ev: "parse_event_response L item = Inr ev"
      and us': "us' = ev # us''"
      and rest: "map (parse_event_response L) (filter (\<lambda>i. \<not> cancelled i) items) = map Inr us''"
      by (cases us') auto
    from parse_event_response_object [OF ev] obtain kvs where item: "item = JObj kvs"
      by blast
    with False have st: "dict_get item ''status'' JNull = Inr (dget kvs ''status'' JNull)"
      "dget kvs ''status'' JNull \<noteq> JStr ''cancelled''"
      by (simp_all add: cancelled_def)
    from False Cons.prems(1)
    have "map (\<lambda>i. getitem i ''id'') (filter cancelled items) = map Inr ds'"
      by simp
    from Cons.IH [OF this rest, of ds "us @ [ev]"] st ev us' show ?thesis
      by (simp del: parse_event_response.simps)
  qed
qed

text \<open>
  Claim C7. Of the items the fetch returned, \<^verbatim>\<open>get_calendars\<close> returns
  \<^verbatim>\<open>(deletes, updates)\<close> exactly when \<^verbatim>\<open>deletes\<close> holds the ids of the items whose
  \<^verbatim>\<open>deleted\<close> flag is true, in order, and \<^verbatim>\<open>updates\<close> the translations of all the other
  items, in order (and it raises when one of those ids or translations does): every item
  goes to exactly one of the two lists and no deleted item is translated. The same holds
  of \<^verbatim>\<open>get_events\<close> with the items whose \<^verbatim>\<open>status\<close> equals \<^verbatim>\<open>'cancelled'\<close>.
\<close>

theorem deletion_classification:
  "(get_raw_calendars L self w = Some (Inr items, w') \<longrightarrow>
      (get_calendars L self w = Some (Inr (deletes, updates), w') \<longleftrightarrow>
         map (\<lambda>i. getitem i ''id'') (filter deleted_flag items) = map Inr deletes
         \<and> map parse_calendar_response (filter (\<lambda>i. \<not> deleted_flag i) items) = map Inr updates))
   \<and> (get_raw_events L self calendar_uid since v = Some (Inr fetched, v') \<longrightarrow>
      (get_events L self calendar_uid since v = Some (Inr (cancels, events), v') \<longleftrightarrow>
         map (\<lambda>i. getitem i ''id'') (filter cancelled fetched) = map Inr cancels
         \<and> map (parse_event_response L) (filter (\<lambda>i. \<not> cancelled i) fetched) = map Inr events))"
proof (intro conjI impI)
  assume raw: "get_raw_calendars L self w = Some (Inr items, w')"
  then have gc: "get_calendars L self w = Some (calendars_loop items [] [], w')"
    by (simp add: get_calendars_def)
  show "get_calendars L self w = Some (Inr (deletes, updates), w') \<longleftrightarrow>
         map (\<lambda>i. getitem i ''id'') (filter deleted_flag items) = map Inr deletes
         \<and> map parse_calendar_response (filter (\<lambda>i. \<not> deleted_flag i) items) = map Inr updates"
    using calendars_loop_Inr [of items "[]" "[]" deletes updates]
      calendars_loop_complete [of items deletes updates "[]" "[]"]
    by (auto simp: gc)
next
  assume raw: "get_raw_events L self calendar_uid since v = Some (Inr fetched, v')"
  then have ge: "get_events L self calendar_uid since v = Some (events_loop L fetched [] [], v')"
    by (simp add: get_events_def)
  show "get_events L self calendar_uid since v = Some (Inr (cancels, events), v') \<longleftrightarrow>
         map (\<lambda>i. getitem i ''id'') (filter cancelled fetched) = map Inr cancels
         \<and> map (parse_event_response L) (filter (\<lambda>i. \<not> cancelled i) fetched) = map Inr events"
    using events_loop_Inr [of L fetched "[]" "[]" cancels events]
      events_loop_complete [of fetched cancels L events "[]" "[]"]
    by (auto simp: ge)
qed

lemmas parse_defs =
  event_times_def event_owner_def minus_one_day_def one_day_def STATUS_MAP_def
  parse_calendar_response_def

theorem deletion_classification_witness:
  "get_calendars demo_externals demo_self (world_of [page [deleted_calendar, live_calendar] None]) =
     Some (Inr ([JStr ''c1''],
                [\<lparr>calendar.uid = JStr ''c2'', name = JStr ''Work'', calendar.read_only = True,
                  calendar.description = JNull\<rparr>]),
       \<lparr>pending = [], sent = [get_request CALENDARS_URL [(''showDeleted'', JBool True)] ''token''],
        tokens_acquired = 1\<rparr>)
   \<and> filter deleted_flag [deleted_calendar, live_calendar] = [deleted_calendar]
   \<and> (\<exists>ev. get_events demo_externals demo_self ''cal'' None
              (world_of [page [cancelled_item, all_day_item] None]) =
            Some (Inr ([JStr ''e0''], [ev]),
              \<lparr>pending = [],
               sent = [get_request (events_url demo_externals ''cal'')
                         [(''updatedMin'', JNull), (''singleEvents'', JBool True),
                          (''showDeleted'', JBool True)] ''token''],
               tokens_acquired = 1\<rparr>)
          \<and> parse_event_response demo_externals all_day_item = Inr ev)
   \<and> filter cancelled [cancelled_item, all_day_item] = [cancelled_item]"
proof -
  let ?w' = "\<lparr>pending = [], sent = [get_request CALENDARS_URL [(''showDeleted'', JBool True)] ''token''],
        tokens_acquired = 1\<rparr>"
  let ?v' = "\<lparr>pending = [],
               sent = [get_request (events_url demo_externals ''cal'')
                         [(''updatedMin'', JNull), (''singleEvents'', JBool True),
                          (''showDeleted'', JBool True)] ''token''],
               tokens_acquired = 1\<rparr>"
  let ?ev = "\<lparr>uid = Some ''e1'', raw_data = ''<json>'', title = JStr ''Offsite'', description = JNull,
          location = JNull, busy = True, start = 63844848000000000,
          end_dt = 63844934400000000, all_day = True, owner = [], read_only = True,
          participants = [], source = ''local'', calendar = None\<rparr>"
  have rawc: "get_raw_calendars demo_externals demo_self
        (world_of [page [deleted_calendar, live_calendar] None]) =
      Some (Inr [deleted_calendar, live_calendar], ?w')"
    by (simp add: get_raw_calendars_def run_defs demo_defs resource_loop.simps)
  have gc: "get_calendars demo_externals demo_self
        (world_of [page [deleted_calendar, live_calendar] None]) =
      Some (Inr ([JStr ''c1''],
                [\<lparr>calendar.uid = JStr ''c2'', name = JStr ''Work'', calendar.read_only = True,
                  calendar.description = JNull\<rparr>]), ?w')"
    by (simp add: get_calendars_def rawc)
       (simp add: deleted_calendar_def live_calendar_def parse_defs dget_def)
  have rawe: "get_raw_events demo_externals demo_self ''cal'' None
        (world_of [page [cancelled_item, all_day_item] None]) =
      Some (Inr [cancelled_item, all_day_item], ?v')"
    by (simp add: get_raw_events_def run_defs demo_defs resource_loop.simps)
  have ge: "get_events demo_externals demo_self ''cal'' None
        (world_of [page [cancelled_item, all_day_item] None]) =
      Some (Inr ([JStr ''e0''], [?ev]), ?v')"
    by (simp add: get_events_def rawe)
       (simp add: cancelled_item_def all_day_item_def demo_externals_def parse_defs dget_def)
  have fd: "filter deleted_flag [deleted_calendar, live_calendar] = [deleted_calendar]"
    by (simp add: deleted_flag_def deleted_calendar_def live_calendar_def dget_def)
  have fc: "filter cancelled [cancelled_item, all_day_item] = [cancelled_item]"
    by (simp add: cancelled_def cancelled_item_def all_day_item_def dget_def)
  from deletion_classification [of demo_externals demo_self
      "world_of [page [deleted_calendar, live_calendar] None]"
      "[deleted_calendar, live_calendar]" ?w' "[JStr ''c1'']"
      "[\<lparr>calendar.uid = JStr ''c2'', name = JStr ''Work'', calendar.read_only = True,
         calendar.description = JNull\<rparr>]"
      "''cal''" None "world_of [page [cancelled_item, all_day_item] None]"
      "[cancelled_item, all_day_item]" ?v' "[JStr ''e0'']" "[?ev]"]
  show ?thesis
    using rawc rawe gc ge fd fc all_day_item_parses by simp
qed

subsection \<open>Dumping an event\<close>

text \<open>
  Claim C8. Every dump \<^verbatim>\<open>_dump_event\<close> returns has the keys \<^verbatim>\<open>summary\<close>,
  \<^verbatim>\<open>description\<close>, \<^verbatim>\<open>location\<close> and \<^verbatim>\<open>transparency\<close> (\<^verbatim>\<open>'opaque'\<close> for a busy event, else
  \<^verbatim>\<open>'transparent'\<close>). For an all-day event \<^verbatim>\<open>start\<close> holds a \<^verbatim>\<open>date\<close> only and there is no
  \<^verbatim>\<open>end\<close> key; otherwise \<^verbatim>\<open>start\<close> and \<^verbatim>\<open>end\<close> hold a \<^verbatim>\<open>dateTime\<close> and the \<^verbatim>\<open>timeZone\<close>
  \<^verbatim>\<open>'UTC'\<close>.
\<close>

theorem dump_event_keys:
  assumes "dump_event L ev = Inr dump"
  shows "map_of dump ''summary'' = Some (title ev)
     \<and> map_of dump ''description'' = Some (description ev)
     \<and> map_of dump ''location'' = Some (location ev)
     \<and> map_of dump ''transparency'' = Some (JStr (if busy ev then ''opaque'' else ''transparent''))
     \<and> (if all_day ev
         then (\<exists>d. strftime_ymd L (start ev) = Inr d
                 \<and> map_of dump ''start'' = Some (JObj [(''date'', JStr d)]))
              \<and> map_of dump ''end'' = None
         else map_of dump ''start'' =
                Some (JObj [(''dateTime'', JStr (isoformat L (start ev))),
                            (''timeZone'', JStr ''UTC'')])
              \<and> map_of dump ''end'' =
                Some (JObj [(''dateTime'', JStr (isoformat L (end_dt ev))),
                            (''timeZone'', JStr ''UTC'')]))"
  using assms
  by (auto simp: dump_event_def Let_def AList.update_conv' split: if_splits sum.splits)

lemma local_event_dump:
  "dump_event demo_externals local_event =
     Inr [(''summary'', JStr ''Review''), (''description'', JNull), (''location'', JStr ''Room 1''),
          (''transparency'', JStr ''transparent''),
          (''start'', JObj [(''dateTime'', JStr ''2024-03-01T09:00:00''), (''timeZone'', JStr ''UTC'')]),
          (''end'', JObj [(''dateTime'', JStr ''2024-03-01T10:00:00''), (''timeZone'', JStr ''UTC'')]),
          (''attendees'', JArr [JObj [(''responseStatus'', JStr ''tentative''),
                                      (''email'', JStr ''a@example.com'')]])]"
  by (simp add: dump_event_def local_event_def demo_externals_def create_attendee_def
        copy_field_def inv_status_def inv_status_map_def STATUS_MAP_def)

lemma all_day_event_dump:
  "dump_event demo_externals
       (local_event\<lparr>all_day := True, start := 63844848000000000, busy := True,
                     participants := []\<rparr>) =
     Inr [(''summary'', JStr ''Review''), (''description'', JNull), (''location'', JStr ''Room 1''),
          (''transparency'', JStr ''opaque''),
          (''start'', JObj [(''date'', JStr ''2024-03-01'')])]"
  by (simp add: dump_event_def local_event_def demo_externals_def)

theorem dump_event_keys_witness:
  "(\<exists>dump. dump_event demo_externals local_event = Inr dump
       \<and> map_of dump ''summary'' = Some (JStr ''Review'')
       \<and> map_of dump ''transparency'' = Some (JStr ''transparent'')
       \<and> map_of dump ''start'' =
            Some (JObj [(''dateTime'', JStr ''2024-03-01T09:00:00''), (''timeZone'', JStr ''UTC'')])
       \<and> map_of dump ''end'' =
            Some (JObj [(''dateTime'', JStr ''2024-03-01T10:00:00''), (''timeZone'', JStr ''UTC'')]))
   \<and> (\<exists>dump. dump_event demo_externals
                 (local_event\<lparr>all_day := True, start := 63844848000000000, busy := True,
                               participants := []\<rparr>) = Inr dump
       \<and> map_of dump ''transparency'' = Some (JStr ''opaque'')
       \<and> map_of dump ''start'' = Some (JObj [(''date'', JStr ''2024-03-01'')])
       \<and> map_of dump ''end'' = None)"
  using dump_event_keys [OF local_event_dump] dump_event_keys [OF all_day_event_dump]
  by (simp add: local_event_dump all_day_event_dump)

subsection \<open>Remote mutations\<close>

lemma make_event_request_step:
  assumes "pending w = r # rest"
  shows "make_event_request L self method calendar_uid event_uid payload w =
     Some (if raises_for_status r then Inl (HTTPError r) else Inr r,
       w\<lparr>pending := rest,
          sent := sent w @
            [\<lparr>http_method = method,
              url = event_url L calendar_uid (case event_uid of None \<Rightarrow> [] | Some s \<Rightarrow> s),
              params = [], bearer = get_token L (account_id self) (tokens_acquired w),
              json_payload = payload\<rparr>],
          tokens_acquired := Suc (tokens_acquired w)\<rparr>)"
  using assms
  by (simp add: make_event_request_def get_access_token_def http_request_def)

lemma local_event_calendar: "calendar_uid_of local_event = Inr ''cal''"
  by (simp add: calendar_uid_of_def local_event_def)

lemma local_event_uid: "uid local_event = Some ''e7''"
  by (simp add: local_event_def)

text \<open>
  Claim C9, as the code has it. The one response to the one request of
  \<^verbatim>\<open>create_remote_event\<close>, \<^verbatim>\<open>update_remote_event\<close> or \<^verbatim>\<open>delete_remote_event\<close> is raised
  to the caller as an \<^verbatim>\<open>HTTPError\<close> at once when its status is an error status, 400 to
  599 (the statuses \<^verbatim>\<open>raise_for_status\<close> raises for, 401 among them), and is not raised
  otherwise. Either way one token was acquired, one request sent, and the remote's
  further responses (\<open>rest\<close>) are left unasked: there is no retry. (For the first two the
  event must dump and have a calendar, or they raise before any request.)
\<close>

theorem remote_mutations_raise:
  fixes L self w rest r
  defines "token \<equiv> get_token L (account_id self) (tokens_acquired w)"
  defines "after \<equiv> \<lambda>q. w\<lparr>pending := rest, sent := sent w @ [q],
                             tokens_acquired := Suc (tokens_acquired w)\<rparr>"
  defines "error_status \<equiv> 400 \<le> status_code r \<and> status_code r < 600"
  assumes "pending w = r # rest"
    and "dump_event L ev = Inr data" and "calendar_uid_of ev = Inr cuid"
  shows "create_remote_event L self ev w =
       Some (if error_status then Inl (HTTPError r)
             else (case json_body r of None \<Rightarrow> Inl ValueError | Some v \<Rightarrow> Inr v),
         after \<lparr>http_method = ''post'',
                url = event_url L cuid (case uid ev of None \<Rightarrow> [] | Some s \<Rightarrow> s),
                params = [], bearer = token, json_payload = Some (JObj data)\<rparr>)
     \<and> update_remote_event L self ev w =
       Some (if error_status then Inl (HTTPError r) else Inr (),
         after \<lparr>http_method = ''put'',
                url = event_url L cuid (case uid ev of None \<Rightarrow> [] | Some s \<Rightarrow> s),
                params = [], bearer = token, json_payload = Some (JObj data)\<rparr>)
     \<and> delete_remote_event L self calendar_uid event_uid w =
       Some (if error_status then Inl (HTTPError r) else Inr (),
         after \<lparr>http_method = ''delete'',
                url = event_url L calendar_uid (case event_uid of None \<Rightarrow> [] | Some s \<Rightarrow> s),
                params = [], bearer = token, json_payload = None\<rparr>)"
proof -
  have r: "raises_for_status r = error_status"
    by (simp add: raises_for_status_def error_status_def)
  note req = make_event_request_step [OF assms(4)]
  show ?thesis
    by (simp add: create_remote_event_def update_remote_event_def delete_remote_event_def
          assms(5,6) req r token_def after_def split: option.splits)
qed

theorem remote_mutations_raise_witness:
  "pending (world_of [status_only 401, status_only 200]) = status_only 401 # [status_only 200]
   \<and> calendar_uid_of local_event = Inr ''cal''
   \<and> update_remote_event demo_externals demo_self local_event
        (world_of [status_only 401, status_only 200]) =
       Some (Inl (HTTPError (status_only 401)),
         \<lparr>pending = [status_only 200],
          sent = [\<lparr>http_method = ''put'', url = event_url demo_externals ''cal'' ''e7'',
                   params = [], bearer = ''token'',
                   json_payload = Some (JObj
                     [(''summary'', JStr ''Review''), (''description'', JNull),
                      (''location'', JStr ''Room 1''), (''transparency'', JStr ''transparent''),
                      (''start'', JObj [(''dateTime'', JStr ''2024-03-01T09:00:00''),
                                        (''timeZone'', JStr ''UTC'')]),
                      (''end'', JObj [(''dateTime'', JStr ''2024-03-01T10:00:00''),
                                      (''timeZone'', JStr ''UTC'')]),
                      (''attendees'', JArr [JObj [(''responseStatus'', JStr ''tentative''),
                                                  (''email'', JStr ''a@example.com'')]])])\<rparr>],
          tokens_acquired = 1\<rparr>)
   \<and> delete_remote_event demo_externals demo_self ''cal'' None
        (world_of [status_only 401, status_only 200]) =
       Some (Inl (HTTPError (status_only 401)),
         \<lparr>pending = [status_only 200],
          sent = [\<lparr>http_method = ''delete'', url = event_url demo_externals ''cal'' [],
                   params = [], bearer = ''token'', json_payload = None\<rparr>],
          tokens_acquired = 1\<rparr>)"
proof -
  have 1: "pending (world_of [status_only 401, status_only 200]) = status_only 401 # [status_only 200]"
    by (simp add: world_of_def)
  have 2: "400 \<le> status_code (status_only 401)" and 3: "status_code (status_only 401) < 600"
    by (simp_all add: status_only_def)
  note 4 = local_event_calendar
  from remote_mutations_raise [OF 1 local_event_dump 4, of demo_self "''cal''" None]
  show ?thesis
    using 1 2 3 4
    by (simp add: world_of_def demo_self_def local_event_uid)
       (simp add: demo_externals_def)
qed

text \<open>
  The claim as it was stated, for every response outside 200 to 299, fails at a status
  below 400: a 304 is not raised, and the mutation returns normally.
\<close>

theorem remote_mutation_304_counterexample:
  "\<not> (200 \<le> status_code (status_only 304) \<and> status_code (status_only 304) < 300)
   \<and> update_remote_event demo_externals demo_self local_event (world_of [status_only 304]) =
       Some (Inr (),
         \<lparr>pending = [],
          sent = [\<lparr>http_method = ''put'', url = event_url demo_externals ''cal'' ''e7'',
                   params = [], bearer = ''token'',
                   json_payload = Some (JObj
                     [(''summary'', JStr ''Review''), (''description'', JNull),
                      (''location'', JStr ''Room 1''), (''transparency'', JStr ''transparent''),
                      (''start'', JObj [(''dateTime'', JStr ''2024-03-01T09:00:00''),
                                        (''timeZone'', JStr ''UTC'')]),
                      (''end'', JObj [(''dateTime'', JStr ''2024-03-01T10:00:00''),
                                      (''timeZone'', JStr ''UTC'')]),
                      (''attendees'', JArr [JObj [(''responseStatus'', JStr ''tentative''),
                                                  (''email'', JStr ''a@example.com'')]])])\<rparr>],
          tokens_acquired = 1\<rparr>)
   \<and> delete_remote_event demo_externals demo_self ''cal'' (Some ''e7'')
        (world_of [status_only 304]) =
       Some (Inr (),
         \<lparr>pending = [],
          sent = [\<lparr>http_method = ''delete'', url = event_url demo_externals ''cal'' ''e7'',
                   params = [], bearer = ''token'', json_payload = None\<rparr>],
          tokens_acquired = 1\<rparr>)"
proof -
  have w: "pending (world_of [status_only 304]) = status_only 304 # []"
    by (simp add: world_of_def)
  have ok: "\<not> raises_for_status (status_only 304)"
    by (simp add: raises_for_status_def status_only_def)
  note req = make_event_request_step [OF w, of demo_externals demo_self]
  show ?thesis
    by (simp add: update_remote_event_def delete_remote_event_def local_event_dump
          local_event_calendar local_event_uid req ok)
       (simp add: world_of_def status_only_def demo_externals_def demo_self_def)
qed

end
